theory Spec2Isabelle
  imports Main
begin

section \<open>Scope paths as Python strings\<close>

text \<open>
  The converter \<^verbatim>\<open>onnx_2_graphbook.py\<close> keeps every scope path as a string whose
  segments are separated by \<^verbatim>\<open>FORWARD_SLASH = "/"\<close>. It takes paths apart with
  \<^verbatim>\<open>str.split\<close>, puts prefixes back with \<^verbatim>\<open>str.join\<close> and compares paths with
  \<^verbatim>\<open>str.startswith\<close>. The three operations are modelled on \<open>string\<close>.
\<close>

abbreviation FORWARD_SLASH :: char where
  "FORWARD_SLASH \<equiv> CHR ''/''"

definition INPUT :: string where
  "INPUT = ''input''"

definition OUTPUT :: string where
  "OUTPUT = ''output''"

text \<open>\<^verbatim>\<open>s.split("/")\<close>: the result is never empty, \<^verbatim>\<open>"".split("/") == [""]\<close>.\<close>

fun split :: "string \<Rightarrow> string list" where
  "split [] = [[]]"
| "split (c # cs) =
     (if c = FORWARD_SLASH then [] # split cs
      else (c # hd (split cs)) # tl (split cs))"

text \<open>\<^verbatim>\<open>"/".join(parts)\<close>.\<close>

fun join :: "string list \<Rightarrow> string" where
  "join [] = []"
| "join [p] = p"
| "join (p # q # ps) = p @ FORWARD_SLASH # join (q # ps)"

text \<open>\<^verbatim>\<open>s.startswith(p)\<close>: a prefix test on characters, not on segments.\<close>

definition startswith :: "string \<Rightarrow> string \<Rightarrow> bool" where
  "startswith s p = (take (length p) s = p)"

section \<open>The interface propagator\<close>

text \<open>
  \<^verbatim>\<open>var_map\<close> is a \<^verbatim>\<open>defaultdict(dict)\<close>: scope path to a dictionary that holds,
  under the keys \<^verbatim>\<open>"input"\<close> and \<^verbatim>\<open>"output"\<close>, the list of variable names the scope
  requires. Reading \<^verbatim>\<open>var_map[k]\<close> for a missing \<open>k\<close> creates the empty dictionary.
\<close>

type_synonym var_map = "string \<Rightarrow> (string \<Rightarrow> string list option) option"

text \<open>
  The body every loop of \<^verbatim>\<open>_calculate_composite_input_outputs\<close> repeats, with
  \<open>slot\<close> either \<open>INPUT\<close> or \<open>OUTPUT\<close>:
  \<^verbatim>\<open>
  if slot not in var_map[join_back]:
      var_map[join_back][slot] = []
  if var_name not in var_map[join_back][slot]:
      var_map[join_back][slot].append(var_name)
  \<close>
\<close>

definition add_var :: "string \<Rightarrow> string \<Rightarrow> string \<Rightarrow> var_map \<Rightarrow> var_map" where
  "add_var slot var_name join_back var_map =
     (let entry = (case var_map join_back of None \<Rightarrow> Map.empty | Some d \<Rightarrow> d);
          names = (case entry slot of None \<Rightarrow> [] | Some l \<Rightarrow> l)
      in var_map(join_back \<mapsto>
           entry(slot \<mapsto> (if var_name \<in> set names then names else names @ [var_name]))))"

text \<open>
  The shared prefixes of the cross-stream case: the loop appends the joined prefix while
  the two split paths agree on their first \<open>i + 1\<close> segments and breaks at the first
  disagreement.
\<close>

definition shared_parts :: "string list \<Rightarrow> string list \<Rightarrow> string list" where
  "shared_parts path1_split path2_split =
     map (\<lambda>i. join (take (i + 1) path1_split))
       (takeWhile (\<lambda>i. take (i + 1) path1_split = take (i + 1) path2_split)
          [0..<min (length path1_split) (length path2_split)])"

text \<open>\<^verbatim>\<open>_calculate_composite_input_outputs(var_name, path1, path2, var_map)\<close>, lines 18-128.
  The Python mutates \<^verbatim>\<open>var_map\<close>; the model returns the new map.\<close>

definition calculate_composite_input_outputs ::
    "string \<Rightarrow> string \<Rightarrow> string \<Rightarrow> var_map \<Rightarrow> var_map" where
  "calculate_composite_input_outputs var_name path1 path2 var_map =
     (if path1 = [] then
        (let path2_split = split path2
         in fold (\<lambda>i. add_var INPUT var_name (join (take (i + 1) path2_split)))
              [1..<length path2_split] var_map)
      else if path2 = [] then
        (let path1_split = split path1
         in fold (\<lambda>i. add_var OUTPUT var_name (join (take (i + 1) path1_split)))
              [0..<length path1_split] var_map)
      else if startswith path1 path2 then
        (let path1_split = split path1;
             path2_split = split path2;
             partial_split = drop (length path2_split) path1_split
         in fold (\<lambda>i. add_var OUTPUT var_name
                         (path2 @ FORWARD_SLASH # join (take (i + 1) partial_split)))
              [0..<length partial_split] var_map)
      else if startswith path2 path1 then
        (let path1_split = split path1;
             path2_split = split path2;
             partial_split = drop (length path1_split) path2_split
         in fold (\<lambda>i. add_var INPUT var_name
                         (path1 @ FORWARD_SLASH # join (take (i + 1) partial_split)))
              [0..<length partial_split] var_map)
      else
        (let path1_split = split path1;
             path2_split = split path2;
             shared = shared_parts path1_split path2_split;
             var_map1 =
               fold (\<lambda>i vm. let join_back = join (take (i + 1) path1_split)
                              in if join_back \<in> set shared then vm
                                 else add_var OUTPUT var_name join_back vm)
                 [0..<length path1_split] var_map
         in fold (\<lambda>i vm. let join_back = join (take (i + 1) path2_split)
                           in if join_back \<in> set shared then vm
                              else add_var INPUT var_name join_back vm)
              [0..<length path2_split] var_map1))"

text \<open>A scope's required names as the assembler reads them: a missing entry or a
  missing slot is the empty list.\<close>

definition required :: "var_map \<Rightarrow> string \<Rightarrow> string \<Rightarrow> string list" where
  "required var_map scope slot =
     (case var_map scope of None \<Rightarrow> []
      | Some d \<Rightarrow> (case d slot of None \<Rightarrow> [] | Some l \<Rightarrow> l))"

section \<open>The flat graph\<close>

text \<open>
  \<^verbatim>\<open>OnnxLink\<close>, \<^verbatim>\<open>OnnxOperation\<close> and \<^verbatim>\<open>OnnxGraph\<close> are declared in \<^verbatim>\<open>onnx_helper\<close>; the
  records hold the fields the converter reads. A \<^verbatim>\<open>composite_path\<close> that is \<^verbatim>\<open>None\<close> or
  empty is the empty string: the converter only tests it for truth. An operation's
  \<^verbatim>\<open>op_type_meta_data\<close> and \<^verbatim>\<open>attribute\<close> are taken as empty, which is the case of the
  converter's own file operations; they only annotate the variables of a leaf.
\<close>

record onnx_link =
  onnx_link_var_name :: string
  onnx_link_source :: string
  onnx_link_sink :: string

record onnx_operation =
  onnx_op_name :: string
  onnx_op_opType :: string
  onnx_op_input :: "string list"
  onnx_op_output :: "string list"
  onnx_op_composite_path :: string

record onnx_graph =
  graph_name :: string
  graph_onnx_ops :: "onnx_operation list"
  graph_onnx_links :: "onnx_link list"
  graph_inputs :: "string list"
  graph_outputs :: "string list"

text \<open>The two exceptions the converter can end with.\<close>

datatype py_error = KeyError string | ValueError string

text \<open>A loop whose body may raise stops at the first exception.\<close>

fun fold_err :: "('a \<Rightarrow> 's \<Rightarrow> py_error + 's) \<Rightarrow> 'a list \<Rightarrow> 's \<Rightarrow> py_error + 's" where
  "fold_err f [] s = Inr s"
| "fold_err f (x # xs) s = (case f x s of Inl e \<Rightarrow> Inl e | Inr s' \<Rightarrow> fold_err f xs s')"

section \<open>The nested graph\<close>

text \<open>
  \<^verbatim>\<open>graphbook.Variable\<close>, \<^verbatim>\<open>LinkEndpoint\<close>, \<^verbatim>\<open>Link\<close> and \<^verbatim>\<open>Operation\<close> with the fields the
  converter sets. A leaf is an \<open>operation\<close>; a composite has children and links as well.
  Python keeps the composites as objects in \<^verbatim>\<open>graphbook_composite_map\<close> and appends a
  child composite to its parent by reference, so that links added to the child later show
  in the parent's tree. The model keeps the composites in a store keyed as the map is, and
  a nested child is the key of its composite.
\<close>

record variable =
  variable_name :: string
  variable_primitive_name :: "string option"

record link_endpoint =
  endpoint_operation :: string
  endpoint_data :: string

record link =
  link_source :: link_endpoint
  link_sink :: link_endpoint
  link_var_name :: "string option"

datatype operation_type = PRIMITIVE_OPERATION | COMPOSITE_OPERATION

record operation =
  operation_name :: string
  operation_primitive_name :: string
  operation_type :: operation_type
  operation_inputs :: "variable list"
  operation_outputs :: "variable list"

datatype child = Leaf operation | Nested string

record composite = operation +
  operation_operations :: "child list"
  operation_links :: "link list"

type_synonym composite_store = "string \<Rightarrow> composite option"

definition Variable :: "string \<Rightarrow> variable" where
  "Variable n = \<lparr>variable_name = n, variable_primitive_name = None\<rparr>"

definition LinkEndpoint :: "string \<Rightarrow> string \<Rightarrow> link_endpoint" where
  "LinkEndpoint operation data = \<lparr>endpoint_operation = operation, endpoint_data = data\<rparr>"

definition Link :: "link_endpoint \<Rightarrow> link_endpoint \<Rightarrow> link" where
  "Link source sink = \<lparr>link_source = source, link_sink = sink, link_var_name = None\<rparr>"

text \<open>\<^verbatim>\<open>composite.links.append(l)\<close> on the composite stored under \<open>key\<close>.\<close>

definition links_append :: "string \<Rightarrow> composite \<Rightarrow> link \<Rightarrow> composite_store \<Rightarrow> composite_store" where
  "links_append key c l store = store(key \<mapsto> c\<lparr>operation_links := operation_links c @ [l]\<rparr>)"

section \<open>Converting a leaf\<close>

text \<open>\<^verbatim>\<open>onnx_op_to_graphbook\<close>, lines 144-237, for an operation without metadata: the
  inputs of \<^verbatim>\<open>read_from_file\<close> and the outputs of \<^verbatim>\<open>write_to_file\<close> get their primitive
  names by position.\<close>

definition positional :: "string list \<Rightarrow> nat \<Rightarrow> string option" where
  "positional names i = (if i < length names then Some (names ! i) else None)"

definition onnx_op_to_graphbook :: "onnx_operation \<Rightarrow> operation" where
  "onnx_op_to_graphbook onnx_op =
     (let graphbook_inputs =
            map (\<lambda>(i, inp). \<lparr>variable_name = inp,
                   variable_primitive_name =
                     (if onnx_op_opType onnx_op = ''read_from_file''
                      then positional [''file_name'', ''dir_name'', ''extraction_schema''] i
                      else None)\<rparr>)
              (enumerate 0 (onnx_op_input onnx_op));
          graphbook_outputs =
            map (\<lambda>(i, out). \<lparr>variable_name = out,
                   variable_primitive_name =
                     (if onnx_op_opType onnx_op = ''write_to_file''
                      then positional [''file_name'', ''dir_name'', ''overwrite'', ''data''] i
                      else None)\<rparr>)
              (enumerate 0 (onnx_op_output onnx_op));
          graphbook_op_type =
            (if onnx_op_opType onnx_op \<in> set [''read_from_file'', ''write_to_file'']
             then PRIMITIVE_OPERATION else COMPOSITE_OPERATION)
      in \<lparr>operation_name = onnx_op_name onnx_op,
          operation_primitive_name = onnx_op_opType onnx_op,
          operation_type = graphbook_op_type,
          operation_inputs = graphbook_inputs,
          operation_outputs = graphbook_outputs\<rparr>)"

section \<open>Scope discovery\<close>

text \<open>\<^verbatim>\<open>d[k].append(v)\<close> on a \<^verbatim>\<open>defaultdict(list)\<close> that is only looked up by key.\<close>

definition append_item :: "string \<Rightarrow> 'v \<Rightarrow> (string \<Rightarrow> 'v list option) \<Rightarrow> (string \<Rightarrow> 'v list option)" where
  "append_item k v d = d(k \<mapsto> (case d k of None \<Rightarrow> [] | Some l \<Rightarrow> l) @ [v])"

text \<open>\<^verbatim>\<open>_compile_onnx_composite_map\<close>, lines 240-258. It returns the composite map and adds
  to the set \<^verbatim>\<open>composite_names\<close> it is given; the model returns both.\<close>

definition compile_onnx_composite_map ::
    "onnx_graph \<Rightarrow> string set \<Rightarrow> (string \<Rightarrow> onnx_operation list option) \<times> string set" where
  "compile_onnx_composite_map onnx_graph composite_names =
     fold (\<lambda>op (composite_map, names).
             if onnx_op_composite_path op \<noteq> [] then
               (let split_path = split (onnx_op_composite_path op);
                    names1 = fold (\<lambda>i. insert (join (take (i + 1) split_path)))
                               [0..<length split_path] names
                in (append_item (onnx_op_composite_path op) op composite_map, names1))
             else (append_item (graph_name onnx_graph) op composite_map, names))
       (graph_onnx_ops onnx_graph) (Map.empty, composite_names)"

text \<open>\<^verbatim>\<open>{op.name: op for op in onnx_graph.onnx_ops}\<close>: the last operation of a name wins.\<close>

definition name_to_op_of :: "onnx_graph \<Rightarrow> (string \<Rightarrow> onnx_operation option)" where
  "name_to_op_of onnx_graph =
     fold (\<lambda>op m. m(onnx_op_name op \<mapsto> op)) (graph_onnx_ops onnx_graph) Map.empty"

text \<open>
  Python iterates the set \<^verbatim>\<open>composite_names\<close> twice, in an order that depends on the
  hashes of the strings. The model takes the order as a list; \<open>iterates\<close> says that the
  list enumerates the set the scope discovery computes.
\<close>

definition iterates :: "string list \<Rightarrow> onnx_graph \<Rightarrow> bool" where
  "iterates names onnx_graph =
     (distinct names \<and> set names = snd (compile_onnx_composite_map onnx_graph {[]}))"

section \<open>Compiling the link map\<close>

text \<open>\<^verbatim>\<open>composite_link_map\<close> is a \<^verbatim>\<open>defaultdict(list)\<close> whose items are iterated later, in
  the order the keys were first used: an association list.\<close>

type_synonym link_map = "(string \<times> onnx_link list) list"

fun append_link :: "string \<Rightarrow> onnx_link \<Rightarrow> link_map \<Rightarrow> link_map" where
  "append_link k l [] = [(k, [l])]"
| "append_link k l ((k', ls) # rest) =
     (if k' = k then (k', ls @ [l]) # rest else (k', ls) # append_link k l rest)"

text \<open>The body of the loop of \<^verbatim>\<open>_compile_onnx_composite_link_map\<close>, lines 272-320.
  \<^verbatim>\<open>name_to_op[k]\<close> raises \<^verbatim>\<open>KeyError\<close> for a missing \<open>k\<close>.\<close>

definition link_step ::
    "onnx_graph \<Rightarrow> (string \<Rightarrow> onnx_operation option) \<Rightarrow> onnx_link \<Rightarrow>
     link_map \<times> var_map \<Rightarrow> py_error + link_map \<times> var_map" where
  "link_step onnx_graph name_to_op link state =
     (case state of (composite_link_map, composite_var_map) \<Rightarrow>
      if onnx_link_sink link = graph_name onnx_graph then
        (case name_to_op (onnx_link_source link) of
           None \<Rightarrow> Inl (KeyError (onnx_link_source link))
         | Some source_op \<Rightarrow>
             Inr (append_link (graph_name onnx_graph) link composite_link_map,
                  calculate_composite_input_outputs (onnx_link_var_name link)
                    (onnx_op_composite_path source_op) [] composite_var_map))
      else if name_to_op (onnx_link_source link) \<noteq> None
              \<and> onnx_link_var_name link \<in> set (graph_outputs onnx_graph) then
        Inr (composite_link_map, composite_var_map)
      else
        (case name_to_op (onnx_link_sink link) of
           Some sink_op \<Rightarrow>
             if onnx_op_composite_path sink_op \<noteq> [] then
               (let link_map1 = append_link (onnx_op_composite_path sink_op) link composite_link_map
                in if onnx_link_source link = graph_name onnx_graph then
                     Inr (link_map1,
                          calculate_composite_input_outputs (onnx_link_var_name link)
                            [] (onnx_op_composite_path sink_op) composite_var_map)
                   else
                     (case name_to_op (onnx_link_source link) of
                        None \<Rightarrow> Inl (KeyError (onnx_link_source link))
                      | Some source_op \<Rightarrow>
                          if onnx_op_composite_path source_op = []
                             \<or> onnx_op_composite_path sink_op \<noteq> onnx_op_composite_path source_op
                          then Inr (link_map1,
                                    calculate_composite_input_outputs (onnx_link_var_name link)
                                      (onnx_op_composite_path source_op)
                                      (onnx_op_composite_path sink_op) composite_var_map)
                          else Inr (link_map1, composite_var_map)))
             else if onnx_link_source link = graph_name onnx_graph then
               Inr (append_link (graph_name onnx_graph) link composite_link_map, composite_var_map)
             else
               (case name_to_op (onnx_link_source link) of
                  None \<Rightarrow> Inl (KeyError (onnx_link_source link))
                | Some source_op \<Rightarrow>
                    if onnx_op_composite_path source_op \<noteq> [] then
                      Inr (append_link (graph_name onnx_graph) link composite_link_map,
                           calculate_composite_input_outputs (onnx_link_var_name link)
                             (onnx_op_composite_path source_op)
                             (onnx_op_composite_path sink_op) composite_var_map)
                    else
                      Inr (append_link (graph_name onnx_graph) link composite_link_map,
                           composite_var_map))
         | None \<Rightarrow>
             Inl (ValueError (''Link sink '' @ onnx_link_sink link @ '' not recognized''))))"

text \<open>\<^verbatim>\<open>_compile_onnx_composite_link_map\<close>, lines 261-322: the link map starts empty, the
  variable map is the caller's and is updated in place.\<close>

definition compile_onnx_composite_link_map ::
    "onnx_graph \<Rightarrow> (string \<Rightarrow> onnx_operation option) \<Rightarrow> var_map \<Rightarrow>
     py_error + link_map \<times> var_map" where
  "compile_onnx_composite_link_map onnx_graph name_to_op composite_var_map =
     fold_err (link_step onnx_graph name_to_op) (graph_onnx_links onnx_graph)
       ([], composite_var_map)"

section \<open>The composite assembler\<close>

text \<open>A dictionary built by a comprehension and read with \<^verbatim>\<open>values()\<close>: a key keeps the
  position of its first use and the value of its last.\<close>

fun dict_set :: "string \<Rightarrow> 'v \<Rightarrow> (string \<times> 'v) list \<Rightarrow> (string \<times> 'v) list" where
  "dict_set k v [] = [(k, v)]"
| "dict_set k v ((k', v') # rest) =
     (if k' = k then (k, v) # rest else (k', v') # dict_set k v rest)"

text \<open>\<^verbatim>\<open>if slot not in composite_var_map[name]: composite_var_map[name][slot] = []\<close>.\<close>

definition ensure_slot :: "string \<Rightarrow> string \<Rightarrow> var_map \<Rightarrow> var_map" where
  "ensure_slot slot name var_map =
     (let entry = (case var_map name of None \<Rightarrow> Map.empty | Some d \<Rightarrow> d)
      in var_map(name \<mapsto> (if entry slot = None then entry(slot \<mapsto> []) else entry)))"

record assembly =
  composite_map :: "string \<Rightarrow> onnx_operation list option"
  already_visited_root :: bool
  primitive_map :: "string \<Rightarrow> operation option"
  composite_var_map :: var_map
  graphbook_composite_map :: composite_store

text \<open>The body of the loop of \<^verbatim>\<open>_compile_graphbook_operations_from_composite_map\<close>,
  lines 337-376, on the dictionaries the function reads and writes.\<close>

definition assemble_step :: "onnx_graph \<Rightarrow> string \<Rightarrow> assembly \<Rightarrow> assembly" where
  "assemble_step onnx_graph name0 st =
     (if name0 = [] \<and> already_visited_root st then st
      else
        (let st1 =
               (if name0 = [] then
                  (let cm1 = (if composite_map st (graph_name onnx_graph) = None
                              then (composite_map st)(graph_name onnx_graph \<mapsto> [])
                              else composite_map st);
                       cm2 = (case cm1 name0 of
                                None \<Rightarrow> cm1
                              | Some ops \<Rightarrow>
                                  cm1(graph_name onnx_graph \<mapsto>
                                        (case cm1 (graph_name onnx_graph) of
                                           None \<Rightarrow> [] | Some l \<Rightarrow> l) @ ops))
                   in st\<lparr>composite_map := cm2, already_visited_root := True\<rparr>)
                else
                  st\<lparr>composite_var_map :=
                       ensure_slot OUTPUT name0 (ensure_slot INPUT name0 (composite_var_map st))\<rparr>);
             name = (if name0 = [] then graph_name onnx_graph else name0);
             inputs = (if name0 = [] then graph_inputs onnx_graph
                       else required (composite_var_map st1) name INPUT);
             outputs = (if name0 = [] then graph_outputs onnx_graph
                        else required (composite_var_map st1) name OUTPUT);
             this_primitive =
               (case composite_map st1 name of
                  None \<Rightarrow> []
                | Some ops \<Rightarrow>
                    fold (\<lambda>onnx_op. dict_set (onnx_op_name onnx_op) (onnx_op_to_graphbook onnx_op))
                      ops [])
         in st1\<lparr>primitive_map :=
                   fold (\<lambda>(k, v) m. m(k \<mapsto> v)) this_primitive (primitive_map st1),
                 graphbook_composite_map :=
                   (graphbook_composite_map st1)(name \<mapsto>
                      \<lparr>operation_name = name,
                       operation_primitive_name = name,
                       operation_type = COMPOSITE_OPERATION,
                       operation_inputs = map Variable inputs,
                       operation_outputs = map Variable outputs,
                       operation_operations = map (Leaf \<circ> snd) this_primitive,
                       operation_links = []\<rparr>)\<rparr>))"

text \<open>\<^verbatim>\<open>_compile_graphbook_operations_from_composite_map\<close>: \<open>composite_names\<close> is the
  set in the order Python iterates it; \<^verbatim>\<open>primitive_map\<close> is the caller's dictionary.\<close>

definition compile_graphbook_operations_from_composite_map ::
    "onnx_graph \<Rightarrow> (string \<Rightarrow> onnx_operation list option) \<Rightarrow> string list \<Rightarrow>
     (string \<Rightarrow> operation option) \<Rightarrow> var_map \<Rightarrow> assembly" where
  "compile_graphbook_operations_from_composite_map onnx_graph cm composite_names pm cvm =
     fold (assemble_step onnx_graph) composite_names
       \<lparr>composite_map = cm, already_visited_root = False, primitive_map = pm,
        composite_var_map = cvm, graphbook_composite_map = Map.empty\<rparr>"

section \<open>The boundary link wirer\<close>

text \<open>The body of the loop of \<^verbatim>\<open>_compile_links_between_composite\<close>, lines 386-416.\<close>

definition wire_step :: "onnx_graph \<Rightarrow> string \<Rightarrow> composite_store \<Rightarrow> py_error + composite_store" where
  "wire_step onnx_graph name store =
     (if name = graph_name onnx_graph then Inr store
      else
        (let split_name = split name
         in if length split_name \<le> 1 then Inr store
            else
              (let joined = join (butlast split_name);
                   parent_name = (if length joined = 0 then graph_name onnx_graph else joined)
               in case store name of
                    None \<Rightarrow> Inl (KeyError name)
                  | Some sub_op \<Rightarrow>
                      (case store parent_name of
                         None \<Rightarrow> Inl (KeyError parent_name)
                       | Some parent_composite \<Rightarrow>
                           Inr (store(parent_name \<mapsto> parent_composite
                                  \<lparr>operation_operations :=
                                     operation_operations parent_composite @ [Nested name],
                                   operation_links :=
                                     operation_links parent_composite
                                     @ [Link (LinkEndpoint ''this'' (variable_name inp))
                                             (LinkEndpoint name (variable_name inp)).
                                        inp \<leftarrow> operation_inputs sub_op,
                                        comp_inp \<leftarrow> operation_inputs parent_composite,
                                        variable_name inp = variable_name comp_inp]
                                     @ [Link (LinkEndpoint name (variable_name out))
                                             (LinkEndpoint ''this'' (variable_name out)).
                                        out \<leftarrow> operation_outputs sub_op,
                                        comp_out \<leftarrow> operation_outputs parent_composite,
                                        variable_name out = variable_name comp_out]\<rparr>))))))"

definition compile_links_between_composite ::
    "onnx_graph \<Rightarrow> composite_store \<Rightarrow> string list \<Rightarrow> py_error + composite_store" where
  "compile_links_between_composite onnx_graph store composite_names =
     fold_err (wire_step onnx_graph) composite_names store"

section \<open>The cross-scope link router\<close>

text \<open>The body of the inner loop of \<^verbatim>\<open>_compile_links_between_composite_and_primitive\<close>,
  lines 431-482, for one link of the composite \<open>composite_name\<close>. The test
  \<^verbatim>\<open>primitive_source in composite.operations\<close> compares operations field by field, so it
  asks whether the composite has a leaf equal to the converted producer; a nested composite
  is never equal to a leaf.\<close>

definition route_link ::
    "onnx_graph \<Rightarrow> (string \<Rightarrow> operation option) \<Rightarrow> string \<Rightarrow> onnx_link \<Rightarrow>
     composite_store \<Rightarrow> py_error + composite_store" where
  "route_link onnx_graph pm composite_name link store =
     (case store composite_name of
        None \<Rightarrow> Inl (KeyError composite_name)
      | Some composite \<Rightarrow>
          if onnx_link_source link = graph_name onnx_graph then Inr store
          else
            (case pm (onnx_link_source link) of
               None \<Rightarrow> Inl (KeyError (onnx_link_source link))
             | Some primitive_source \<Rightarrow>
                 if Leaf primitive_source \<in> set (operation_operations composite) then
                   Inr (links_append composite_name composite
                          ((Link (LinkEndpoint (onnx_link_source link) (onnx_link_var_name link))
                                 (LinkEndpoint (onnx_link_sink link) (onnx_link_var_name link)))
                             \<lparr>link_var_name := Some (onnx_link_var_name link)\<rparr>)
                          store)
                 else if composite_name = graph_name onnx_graph then
                   (let sink_name = join (butlast (split (operation_name primitive_source)))
                    in case store sink_name of
                         None \<Rightarrow> Inl (KeyError sink_name)
                       | Some next_composite \<Rightarrow>
                           if onnx_link_var_name link
                                \<notin> set (map variable_name (operation_outputs next_composite))
                           then Inl (ValueError ''Expected link var name to be in composite outputs'')
                           else
                             Inr (links_append sink_name next_composite
                                    (Link (LinkEndpoint (operation_name primitive_source)
                                             (onnx_link_var_name link))
                                          (LinkEndpoint ''this'' (onnx_link_var_name link)))
                                    store))
                 else if \<not> startswith (operation_name primitive_source) composite_name then
                   (if onnx_link_var_name link
                         \<notin> set (map variable_name (operation_inputs composite))
                    then Inl (ValueError ''Expected link var name to be in composite inputs'')
                    else
                      Inr (links_append composite_name composite
                             (Link (LinkEndpoint ''this'' (onnx_link_var_name link))
                                   (LinkEndpoint (onnx_link_sink link) (onnx_link_var_name link)))
                             store))
                 else
                   (let split_name = split (operation_name primitive_source);
                        split_composite_name = split composite_name
                    in if length split_name \<le> length split_composite_name then
                         Inl (ValueError ''Primitive source name is not longer than composite name'')
                       else
                         (let next_composite_name =
                                join (take (length split_composite_name + 1) split_name)
                          in case store next_composite_name of
                               None \<Rightarrow> Inl (KeyError next_composite_name)
                             | Some next_composite \<Rightarrow>
                                 if onnx_link_var_name link
                                      \<notin> set (map variable_name (operation_outputs next_composite))
                                 then Inl (ValueError
                                        ''Expected link var name to be in composite outputs'')
                                 else
                                   Inr (links_append composite_name composite
                                          (Link (LinkEndpoint next_composite_name
                                                   (onnx_link_var_name link))
                                                (LinkEndpoint (onnx_link_sink link)
                                                   (onnx_link_var_name link)))
                                          store)))))"

text \<open>The outer loop looks the composite up once, before it goes through its links.\<close>

definition route_links ::
    "onnx_graph \<Rightarrow> (string \<Rightarrow> operation option) \<Rightarrow> string \<times> onnx_link list \<Rightarrow>
     composite_store \<Rightarrow> py_error + composite_store" where
  "route_links onnx_graph pm item store =
     (case item of (composite_name, link_list) \<Rightarrow>
      case store composite_name of
        None \<Rightarrow> Inl (KeyError composite_name)
      | Some composite \<Rightarrow> fold_err (route_link onnx_graph pm composite_name) link_list store)"

definition compile_links_between_composite_and_primitive ::
    "onnx_graph \<Rightarrow> composite_store \<Rightarrow> (string \<Rightarrow> operation option) \<Rightarrow> link_map \<Rightarrow>
     py_error + composite_store" where
  "compile_links_between_composite_and_primitive onnx_graph store pm composite_link_map =
     fold_err (route_links onnx_graph pm) composite_link_map store"

section \<open>The conversion\<close>

text \<open>\<^verbatim>\<open>onnx_graph_to_graphbook\<close>, lines 484-529. \<open>composite_names\<close> is the order in which
  Python iterates the set of scope names. The function returns the root composite; its
  nested children are read from the store returned with it.\<close>

definition onnx_graph_to_graphbook ::
    "string list \<Rightarrow> onnx_graph \<Rightarrow> py_error + composite \<times> composite_store" where
  "onnx_graph_to_graphbook composite_names onnx_graph =
     (let cm = fst (compile_onnx_composite_map onnx_graph {[]});
          name_to_op = name_to_op_of onnx_graph
      in case compile_onnx_composite_link_map onnx_graph name_to_op Map.empty of
           Inl e \<Rightarrow> Inl e
         | Inr (composite_link_map, cvm) \<Rightarrow>
             (let st = compile_graphbook_operations_from_composite_map
                         onnx_graph cm composite_names Map.empty cvm
              in case compile_links_between_composite onnx_graph
                        (graphbook_composite_map st) composite_names of
                   Inl e \<Rightarrow> Inl e
                 | Inr store1 \<Rightarrow>
                     (case compile_links_between_composite_and_primitive onnx_graph store1
                             (primitive_map st) composite_link_map of
                        Inl e \<Rightarrow> Inl e
                      | Inr store2 \<Rightarrow>
                          (case store2 (graph_name onnx_graph) of
                             None \<Rightarrow> Inl (KeyError (graph_name onnx_graph))
                           | Some root \<Rightarrow> Inr (root, store2)))))"

section \<open>Example graphs\<close>

text \<open>One root-level operation that reads the graph's input and writes its output.\<close>

definition flat_example :: onnx_graph where
  "flat_example =
     \<lparr>graph_name = ''g'',
      graph_onnx_ops =
        [\<lparr>onnx_op_name = ''p'', onnx_op_opType = ''Add'', onnx_op_input = [''x''],
          onnx_op_output = [''y''], onnx_op_composite_path = []\<rparr>],
      graph_onnx_links =
        [\<lparr>onnx_link_var_name = ''x'', onnx_link_source = ''g'', onnx_link_sink = ''p''\<rparr>,
         \<lparr>onnx_link_var_name = ''y'', onnx_link_source = ''p'', onnx_link_sink = ''g''\<rparr>],
      graph_inputs = [''x''],
      graph_outputs = [''y'']\<rparr>"

text \<open>The same operation two scopes down, with paths written as the converter's
  docstring writes them.\<close>

definition nested_example :: onnx_graph where
  "nested_example =
     \<lparr>graph_name = ''g'',
      graph_onnx_ops =
        [\<lparr>onnx_op_name = ''/a/b/p'', onnx_op_opType = ''Add'', onnx_op_input = [''x''],
          onnx_op_output = [''y''], onnx_op_composite_path = ''/a/b''\<rparr>],
      graph_onnx_links =
        [\<lparr>onnx_link_var_name = ''x'', onnx_link_source = ''g'', onnx_link_sink = ''/a/b/p''\<rparr>,
         \<lparr>onnx_link_var_name = ''y'', onnx_link_source = ''/a/b/p'', onnx_link_sink = ''g''\<rparr>],
      graph_inputs = [''x''],
      graph_outputs = [''y'']\<rparr>"

text \<open>A graph output that is also sent to a consumer no operation is named after.\<close>

definition dangling_example :: onnx_graph where
  "dangling_example =
     \<lparr>graph_name = ''g'',
      graph_onnx_ops =
        [\<lparr>onnx_op_name = ''p'', onnx_op_opType = ''Add'', onnx_op_input = [],
          onnx_op_output = [''y''], onnx_op_composite_path = []\<rparr>],
      graph_onnx_links =
        [\<lparr>onnx_link_var_name = ''y'', onnx_link_source = ''p'', onnx_link_sink = ''g''\<rparr>,
         \<lparr>onnx_link_var_name = ''y'', onnx_link_source = ''p'', onnx_link_sink = ''ghost''\<rparr>],
      graph_inputs = [],
      graph_outputs = [''y'']\<rparr>"

text \<open>A producer and a consumer in two sibling scopes whose names share their first
  characters.\<close>

definition sibling_example :: onnx_graph where
  "sibling_example =
     \<lparr>graph_name = ''g'',
      graph_onnx_ops =
        [\<lparr>onnx_op_name = ''block_1/p'', onnx_op_opType = ''Add'', onnx_op_input = [],
          onnx_op_output = [''v''], onnx_op_composite_path = ''block_1''\<rparr>,
         \<lparr>onnx_op_name = ''block_10/q'', onnx_op_opType = ''Relu'', onnx_op_input = [''v''],
          onnx_op_output = [], onnx_op_composite_path = ''block_10''\<rparr>],
      graph_onnx_links =
        [\<lparr>onnx_link_var_name = ''v'', onnx_link_source = ''block_1/p'',
          onnx_link_sink = ''block_10/q''\<rparr>],
      graph_inputs = [],
      graph_outputs = []\<rparr>"

text \<open>The nested example just before the router runs: the scopes are iterated as
  \<^verbatim>\<open>""\<close>, \<^verbatim>\<open>/a\<close>, \<^verbatim>\<open>/a/b\<close>, the assembler has built the composites and the wirer has
  linked them.\<close>

definition nested_example_names :: "string list" where
  "nested_example_names = ['''', ''/a'', ''/a/b'']"

definition nested_example_link_map :: link_map where
  "nested_example_link_map =
     (case compile_onnx_composite_link_map nested_example (name_to_op_of nested_example)
             Map.empty of
        Inl e \<Rightarrow> []
      | Inr (composite_link_map, cvm) \<Rightarrow> composite_link_map)"

definition nested_example_var_map :: var_map where
  "nested_example_var_map =
     (case compile_onnx_composite_link_map nested_example (name_to_op_of nested_example)
             Map.empty of
        Inl e \<Rightarrow> Map.empty
      | Inr (composite_link_map, cvm) \<Rightarrow> cvm)"



text \<open>The store the conversion of the nested example ends with.\<close>

definition nested_example_store :: composite_store where
  "nested_example_store =
     (case onnx_graph_to_graphbook nested_example_names nested_example of
        Inl e \<Rightarrow> Map.empty
      | Inr (root, store) \<Rightarrow> store)"


text \<open>The root a conversion returns, without the store.\<close>

definition root_of :: "py_error + composite \<times> composite_store \<Rightarrow> py_error + composite" where
  "root_of result = (case result of Inl e \<Rightarrow> Inl e | Inr (root, store) \<Rightarrow> Inr root)"

section \<open>The propagator as a list of additions\<close>

text \<open>
  For the proofs, a call of the propagator is read as the list of additions it makes:
  triples of slot, variable name and scope. \<open>targets\<close> lists them branch by branch in
  the order of the loops, and \<open>adds\<close> carries a list of additions out.
\<close>

definition adds :: "(string \<times> string \<times> string) list \<Rightarrow> var_map \<Rightarrow> var_map" where
  "adds ts var_map = fold (\<lambda>(slot, var_name, scope). add_var slot var_name scope) ts var_map"

definition targets :: "string \<Rightarrow> string \<Rightarrow> string \<Rightarrow> (string \<times> string \<times> string) list" where
  "targets var_name path1 path2 =
     (if path1 = [] then
        map (\<lambda>i. (INPUT, var_name, join (take (i + 1) (split path2))))
          [1..<length (split path2)]
      else if path2 = [] then
        map (\<lambda>i. (OUTPUT, var_name, join (take (i + 1) (split path1))))
          [0..<length (split path1)]
      else if startswith path1 path2 then
        map (\<lambda>i. (OUTPUT, var_name,
                   path2 @ FORWARD_SLASH #
                     join (take (i + 1) (drop (length (split path2)) (split path1)))))
          [0..<length (drop (length (split path2)) (split path1))]
      else if startswith path2 path1 then
        map (\<lambda>i. (INPUT, var_name,
                   path1 @ FORWARD_SLASH #
                     join (take (i + 1) (drop (length (split path1)) (split path2)))))
          [0..<length (drop (length (split path1)) (split path2))]
      else
        map (\<lambda>i. (OUTPUT, var_name, join (take (i + 1) (split path1))))
          (filter (\<lambda>i. join (take (i + 1) (split path1))
                         \<notin> set (shared_parts (split path1) (split path2)))
             [0..<length (split path1)]) @
        map (\<lambda>i. (INPUT, var_name, join (take (i + 1) (split path2))))
          (filter (\<lambda>i. join (take (i + 1) (split path2))
                         \<notin> set (shared_parts (split path1) (split path2)))
             [0..<length (split path2)]))"

text \<open>
  For the proofs about the wirer and the router: a store \<open>extends\<close> another when every
  composite of the first is still there with the interface it had and with at least the
  children and the links it had.
\<close>

definition extends :: "composite_store \<Rightarrow> composite_store \<Rightarrow> bool" where
  "extends s s' =
     (\<forall>k c. s k = Some c \<longrightarrow>
        (\<exists>c'. s' k = Some c'
            \<and> operation_inputs c' = operation_inputs c
            \<and> operation_outputs c' = operation_outputs c
            \<and> set (operation_operations c) \<subseteq> set (operation_operations c')
            \<and> set (operation_links c) \<subseteq> set (operation_links c')))"

section \<open>Facts about splitting and joining\<close>

lemma split_not_Nil: "split s \<noteq> []"
  by (induction s) auto

lemma join_split: "join (split s) = s"
proof (induction s)
  case Nil
  show ?case by simp
next
  case (Cons c cs)
  obtain w ws where sp: "split cs = w # ws"
    using split_not_Nil [of cs] by (cases "split cs") auto
  show ?case
  proof (cases "c = FORWARD_SLASH")
    case True
    with Cons sp show ?thesis by simp
  next
    case False
    with Cons sp show ?thesis by (cases ws) auto
  qed
qed

lemma split_slash_free: "p \<in> set (split s) \<Longrightarrow> FORWARD_SLASH \<notin> set p"
proof (induction s arbitrary: p)
  case Nil
  then show ?case by simp
next
  case (Cons c cs)
  obtain w ws where sp: "split cs = w # ws"
    using split_not_Nil [of cs] by (cases "split cs") auto
  from Cons sp show ?case by (auto split: if_splits)
qed

lemma split_append_slash: "split (a @ FORWARD_SLASH # b) = split a @ split b"
proof (induction a)
  case Nil
  show ?case by simp
next
  case (Cons c cs)
  obtain w ws where sp: "split cs = w # ws"
    using split_not_Nil [of cs] by (cases "split cs") auto
  with Cons show ?case by simp
qed

lemma split_segment: "FORWARD_SLASH \<notin> set p \<Longrightarrow> split p = [p]"
  by (induction p) auto

lemma join_append:
  "ps \<noteq> [] \<Longrightarrow> qs \<noteq> [] \<Longrightarrow> join (ps @ qs) = join ps @ FORWARD_SLASH # join qs"
proof (induction ps rule: join.induct)
  case 1
  then show ?case by simp
next
  case (2 p)
  then show ?case by (cases qs) auto
next
  case (3 p q ps)
  then show ?case by simp
qed

lemma split_join:
  "ps \<noteq> [] \<Longrightarrow> \<forall>p \<in> set ps. FORWARD_SLASH \<notin> set p \<Longrightarrow> split (join ps) = ps"
proof (induction ps rule: join.induct)
  case 1
  then show ?case by simp
next
  case (2 p)
  then show ?case by (simp add: split_segment)
next
  case (3 p q ps)
  then show ?case by (simp add: split_append_slash split_segment)
qed

lemma join_two_has_slash: "2 \<le> length ps \<Longrightarrow> FORWARD_SLASH \<in> set (join ps)"
  by (induction ps rule: join.induct) auto

lemma split_join_take:
  "0 < k \<Longrightarrow> split (join (take k (split s))) = take k (split s)"
  by (rule split_join) (auto simp: split_not_Nil dest: in_set_takeD split_slash_free)

section \<open>Facts about additions\<close>

lemma required_add_var:
  "required (add_var slot v scope vm) k s =
     (if k = scope \<and> s = slot \<and> v \<notin> set (required vm k s)
      then required vm k s @ [v] else required vm k s)"
  by (auto simp: required_def add_var_def Let_def split: option.splits)

lemma add_var_other_scope: "k \<noteq> scope \<Longrightarrow> add_var slot v scope vm k = vm k"
  by (simp add: add_var_def Let_def)

lemma add_var_present: "v \<in> set (required vm scope slot) \<Longrightarrow> add_var slot v scope vm = vm"
  by (rule ext) (auto simp: required_def add_var_def Let_def split: option.splits)

lemma adds_Nil: "adds [] vm = vm"
  by (simp add: adds_def)

lemma adds_Cons: "adds ((slot, v, scope) # ts) vm = adds ts (add_var slot v scope vm)"
  by (simp add: adds_def)

lemma adds_append: "adds (xs @ ys) vm = adds ys (adds xs vm)"
  by (simp add: adds_def)

lemma adds_keeps: "v \<in> set (required vm k s) \<Longrightarrow> v \<in> set (required (adds ts vm) k s)"
proof (induction ts arbitrary: vm)
  case Nil
  then show ?case by (simp add: adds_Nil)
next
  case (Cons t ts)
  obtain slot w scope where t: "t = (slot, w, scope)" by (cases t) auto
  have "v \<in> set (required (add_var slot w scope vm) k s)"
    using Cons.prems by (auto simp: required_add_var)
  then show ?case unfolding t adds_Cons by (rule Cons.IH)
qed

lemma adds_reaches:
  "(slot, v, scope) \<in> set ts \<Longrightarrow> v \<in> set (required (adds ts vm) scope slot)"
proof (induction ts arbitrary: vm)
  case Nil
  then show ?case by simp
next
  case (Cons t ts)
  obtain slot' w scope' where t: "t = (slot', w, scope')" by (cases t) auto
  show ?case
  proof (cases "t = (slot, v, scope)")
    case True
    have "v \<in> set (required (add_var slot v scope vm) scope slot)"
      by (simp add: required_add_var)
    then show ?thesis using True by (simp add: adds_Cons adds_keeps)
  next
    case False
    with Cons.prems have "(slot, v, scope) \<in> set ts" by simp
    then show ?thesis unfolding t adds_Cons by (rule Cons.IH)
  qed
qed

lemma adds_present:
  "\<forall>(slot, v, scope) \<in> set ts. v \<in> set (required vm scope slot) \<Longrightarrow> adds ts vm = vm"
proof (induction ts)
  case Nil
  show ?case by (simp add: adds_Nil)
next
  case (Cons t ts)
  obtain slot w scope where t: "t = (slot, w, scope)" by (cases t) auto
  from Cons.prems t have "add_var slot w scope vm = vm"
    by (simp add: add_var_present)
  with Cons t show ?case by (simp add: adds_Cons)
qed

lemma adds_idem: "adds ts (adds ts vm) = adds ts vm"
  by (rule adds_present) (auto simp: adds_reaches)

lemma adds_other_scope:
  "\<forall>(slot, v, scope) \<in> set ts. scope \<noteq> k \<Longrightarrow> adds ts vm k = vm k"
proof (induction ts arbitrary: vm)
  case Nil
  show ?case by (simp add: adds_Nil)
next
  case (Cons t ts)
  obtain slot w scope where t: "t = (slot, w, scope)" by (cases t) auto
  from Cons.prems t have "k \<noteq> scope" by auto
  then have "add_var slot w scope vm k = vm k" by (rule add_var_other_scope)
  with Cons t show ?case by (simp add: adds_Cons)
qed

lemma adds_other_slot:
  "\<forall>(slot, v, scope) \<in> set ts. \<not> (scope = k \<and> slot = s) \<Longrightarrow>
   required (adds ts vm) k s = required vm k s"
proof (induction ts arbitrary: vm)
  case Nil
  show ?case by (simp add: adds_Nil)
next
  case (Cons t ts)
  obtain slot w scope where t: "t = (slot, w, scope)" by (cases t) auto
  from Cons t show ?case by (auto simp: adds_Cons required_add_var)
qed

lemma adds_distinct:
  "\<forall>k s. distinct (required vm k s) \<Longrightarrow> distinct (required (adds ts vm) k s)"
proof (induction ts arbitrary: vm)
  case Nil
  then show ?case by (simp add: adds_Nil)
next
  case (Cons t ts)
  obtain slot w scope where t: "t = (slot, w, scope)" by (cases t) auto
  have "\<forall>k s. distinct (required (add_var slot w scope vm) k s)"
    using Cons.prems by (simp add: required_add_var)
  then show ?case unfolding t adds_Cons by (rule Cons.IH)
qed

lemma adds_extends:
  "\<exists>ys. required (adds ts vm) k s = required vm k s @ ys"
proof (induction ts arbitrary: vm)
  case Nil
  show ?case by (simp add: adds_Nil)
next
  case (Cons t ts)
  obtain slot w scope where t: "t = (slot, w, scope)" by (cases t) auto
  obtain ys where "required (adds ts (add_var slot w scope vm)) k s =
      required (add_var slot w scope vm) k s @ ys"
    using Cons.IH by blast
  then show ?case unfolding t adds_Cons by (auto simp: required_add_var)
qed

lemma fold_skip:
  "fold (\<lambda>i vm. if Q i then vm else g i vm) xs vm = fold g (filter (\<lambda>i. \<not> Q i) xs) vm"
  by (induction xs arbitrary: vm) auto

lemma adds_map:
  "adds (map (\<lambda>i. (slot, v, f i)) xs) vm = fold (\<lambda>i. add_var slot v (f i)) xs vm"
  by (simp add: adds_def fold_map comp_def)

lemma calculate_adds:
  "calculate_composite_input_outputs v path1 path2 vm = adds (targets v path1 path2) vm"
  unfolding calculate_composite_input_outputs_def targets_def
  by (simp add: Let_def adds_map adds_append fold_skip)

section \<open>The propagation cases\<close>

lemma INPUT_neq_OUTPUT: "INPUT \<noteq> OUTPUT"
  by (simp add: INPUT_def OUTPUT_def)

subsection \<open>Links that start at the graph boundary\<close>

text \<open>
  Claim C1. A link whose producer is the graph boundary is propagated with an empty
  \<open>path1\<close>. The variable then enters the required inputs of every prefix of the
  consumer's path from depth 2 up to the whole path. The entry of the depth-1 prefix is
  left as it was whatever the depth of the path, also when the path is a single segment:
  for \<^verbatim>\<open>x/y/z\<close> the scopes \<^verbatim>\<open>x/y\<close> and \<^verbatim>\<open>x/y/z\<close> get the variable and \<^verbatim>\<open>x\<close>
  does not, and for \<^verbatim>\<open>x\<close> nothing is added.
\<close>

theorem downstream_from_boundary_skips_first_level:
  "(\<forall>k. 2 \<le> k \<and> k \<le> length (split path2) \<longrightarrow>
        var_name \<in> set (required (calculate_composite_input_outputs var_name [] path2 var_map)
                          (join (take k (split path2))) INPUT))
   \<and> calculate_composite_input_outputs var_name [] path2 var_map (join (take 1 (split path2)))
       = var_map (join (take 1 (split path2)))"
proof (intro conjI allI impI)
  fix k
  assume k: "2 \<le> k \<and> k \<le> length (split path2)"
  let ?ts = "targets var_name [] path2"
  obtain i where i: "k = i + 1" "1 \<le> i" "i < length (split path2)"
    using k by (cases k) auto
  then have "(INPUT, var_name, join (take k (split path2))) \<in> set ?ts"
    by (auto simp: targets_def)
  then show "var_name \<in> set (required (calculate_composite_input_outputs var_name [] path2 var_map)
                           (join (take k (split path2))) INPUT)"
    unfolding calculate_adds by (rule adds_reaches)
next
  let ?first = "join (take 1 (split path2))"
  have free: "FORWARD_SLASH \<notin> set ?first"
    using split_not_Nil [of path2] split_slash_free [of _ path2]
    by (cases "split path2") auto
  have "\<forall>(slot, v, scope) \<in> set (targets var_name [] path2). scope \<noteq> ?first"
  proof -
    { fix i assume "1 \<le> i" "i < length (split path2)"
      then have "FORWARD_SLASH \<in> set (join (take (i + 1) (split path2)))"
        by (intro join_two_has_slash) simp
      with free have "join (take (i + 1) (split path2)) \<noteq> ?first" by metis }
    then show ?thesis by (auto simp: targets_def)
  qed
  then show "calculate_composite_input_outputs var_name [] path2 var_map ?first = var_map ?first"
    unfolding calculate_adds by (rule adds_other_scope)
qed

theorem downstream_from_boundary_skips_first_level_witness:
  "(2::nat) \<le> 2 \<and> 3 \<le> length (split ''x/y/z'')
   \<and> ''v'' \<in> set (required (calculate_composite_input_outputs ''v'' [] ''x/y/z'' Map.empty) ''x/y'' INPUT)
   \<and> ''v'' \<in> set (required (calculate_composite_input_outputs ''v'' [] ''x/y/z'' Map.empty) ''x/y/z'' INPUT)
   \<and> ''v'' \<notin> set (required (calculate_composite_input_outputs ''v'' [] ''x/y/z'' Map.empty) ''x'' INPUT)
   \<and> calculate_composite_input_outputs ''v'' [] ''x'' Map.empty ''x'' = None
   \<and> ''v'' \<notin> set (required (calculate_composite_input_outputs ''v'' [] ''x'' Map.empty) ''x'' INPUT)"
proof -
  note deep = downstream_from_boundary_skips_first_level [of "''x/y/z''" "''v''" Map.empty]
  note flat = downstream_from_boundary_skips_first_level [of "''x''" "''v''" Map.empty]
  from deep have k2: "''v'' \<in> set (required
      (calculate_composite_input_outputs ''v'' [] ''x/y/z'' Map.empty) ''x/y'' INPUT)"
    by (elim conjE allE [of _ 2]) simp
  from deep have k3: "''v'' \<in> set (required
      (calculate_composite_input_outputs ''v'' [] ''x/y/z'' Map.empty) ''x/y/z'' INPUT)"
    by (elim conjE allE [of _ 3]) simp
  from deep have first: "calculate_composite_input_outputs ''v'' [] ''x/y/z'' Map.empty ''x'' = None"
    by simp
  from flat have one: "calculate_composite_input_outputs ''v'' [] ''x'' Map.empty ''x'' = None"
    by simp
  from k2 k3 first one show ?thesis by (simp add: required_def)
qed

subsection \<open>Links that end at the graph boundary\<close>

text \<open>
  Claim C5. A link whose consumer is the graph boundary is propagated with an empty
  \<open>path2\<close>. For a non-root producer path the variable enters the required outputs of
  every prefix of that path from depth 1 up to the whole path; the depth-1 scope is
  included, unlike in the downstream case.
\<close>

theorem upstream_to_boundary_includes_first_level:
  assumes "path1 \<noteq> []" and "1 \<le> k" and "k \<le> length (split path1)"
  shows "var_name \<in> set (required (calculate_composite_input_outputs var_name path1 [] var_map)
                           (join (take k (split path1))) OUTPUT)"
proof -
  obtain i where i: "k = i + 1" "i < length (split path1)"
    using assms by (cases k) auto
  then have "(OUTPUT, var_name, join (take k (split path1))) \<in> set (targets var_name path1 [])"
    using assms(1) by (auto simp: targets_def)
  then show ?thesis unfolding calculate_adds by (rule adds_reaches)
qed

theorem upstream_to_boundary_includes_first_level_witness:
  "''x/y/z'' \<noteq> [] \<and> (1::nat) \<le> 1 \<and> 3 \<le> length (split ''x/y/z'')
   \<and> ''v'' \<in> set (required (calculate_composite_input_outputs ''v'' ''x/y/z'' [] Map.empty) ''x'' OUTPUT)
   \<and> ''v'' \<in> set (required (calculate_composite_input_outputs ''v'' ''x/y/z'' [] Map.empty) ''x/y'' OUTPUT)
   \<and> ''v'' \<in> set (required (calculate_composite_input_outputs ''v'' ''x/y/z'' [] Map.empty) ''x/y/z'' OUTPUT)"
  using upstream_to_boundary_includes_first_level [of "''x/y/z''" 1 "''v''" Map.empty]
        upstream_to_boundary_includes_first_level [of "''x/y/z''" 2 "''v''" Map.empty]
        upstream_to_boundary_includes_first_level [of "''x/y/z''" 3 "''v''" Map.empty]
  by simp

subsection \<open>A producer below its consumer\<close>

lemma startswith_append: "startswith (p @ s) p"
  by (simp add: startswith_def)

lemma targets_upstream:
  assumes "path2 \<noteq> []" and "rs \<noteq> []" and "\<forall>r \<in> set rs. FORWARD_SLASH \<notin> set r"
  shows "targets v (path2 @ FORWARD_SLASH # join rs) path2 =
         map (\<lambda>i. (OUTPUT, v, path2 @ FORWARD_SLASH # join (take (i + 1) rs))) [0..<length rs]"
proof -
  have "split (path2 @ FORWARD_SLASH # join rs) = split path2 @ rs"
    using assms by (simp add: split_append_slash split_join)
  then show ?thesis
    using assms(1) by (simp add: targets_def startswith_append)
qed

text \<open>
  Claim C2. With the producer at scope \<^verbatim>\<open>a/b\<close> and the consumer at scope \<^verbatim>\<open>a\<close>, the
  variable becomes a required output of \<^verbatim>\<open>a/b\<close>, and neither the required outputs nor
  the required inputs of \<^verbatim>\<open>a\<close> change. Here \<open>a\<close> is any non-root path and \<open>b\<close> one
  segment.
\<close>

theorem producer_below_consumer_marks_outputs:
  assumes "a \<noteq> []" and "FORWARD_SLASH \<notin> set b"
  shows "var_name \<in> set (required
            (calculate_composite_input_outputs var_name (a @ FORWARD_SLASH # b) a var_map)
            (a @ FORWARD_SLASH # b) OUTPUT)
       \<and> required (calculate_composite_input_outputs var_name (a @ FORWARD_SLASH # b) a var_map)
            a OUTPUT = required var_map a OUTPUT
       \<and> required (calculate_composite_input_outputs var_name (a @ FORWARD_SLASH # b) a var_map)
            a INPUT = required var_map a INPUT"
proof -
  have ts: "targets var_name (a @ FORWARD_SLASH # b) a = [(OUTPUT, var_name, a @ FORWARD_SLASH # b)]"
    using targets_upstream [of a "[b]" var_name] assms by simp
  show ?thesis
    unfolding calculate_adds ts
    by (simp add: adds_Cons adds_Nil required_add_var)
qed

theorem producer_below_consumer_marks_outputs_witness:
  "''a'' \<noteq> [] \<and> FORWARD_SLASH \<notin> set ''b''
   \<and> ''v'' \<in> set (required (calculate_composite_input_outputs ''v'' ''a/b'' ''a'' Map.empty)
                    ''a/b'' OUTPUT)
   \<and> required (calculate_composite_input_outputs ''v'' ''a/b'' ''a'' Map.empty) ''a'' OUTPUT = []
   \<and> required (calculate_composite_input_outputs ''v'' ''a/b'' ''a'' Map.empty) ''a'' INPUT = []"
  using producer_below_consumer_marks_outputs [of "''a''" "''b''" "''v''" Map.empty]
  by (simp add: required_def)

text \<open>
  Claim C3 says that, when the consumer's scope is a strict prefix of the producer's,
  the variable enters the required inputs of the scopes from the consumer's scope up to,
  but not including, the producer's. For producer \<^verbatim>\<open>a/b\<close> and consumer \<^verbatim>\<open>a\<close> that
  would put the variable into the required inputs of \<^verbatim>\<open>a\<close>. The code leaves the inputs
  of \<^verbatim>\<open>a\<close> alone and marks an output on \<^verbatim>\<open>a/b\<close>.
\<close>

theorem consumer_prefix_of_producer_counterexample:
  "''v'' \<notin> set (required (calculate_composite_input_outputs ''v'' ''a/b'' ''a'' Map.empty)
                    ''a'' INPUT)
   \<and> ''v'' \<in> set (required (calculate_composite_input_outputs ''v'' ''a/b'' ''a'' Map.empty)
                    ''a/b'' OUTPUT)"
  by code_simp

text \<open>
  Claim C3 as the code has it. When the consumer's scope \<open>path2\<close> is non-root and the
  producer's scope lies below it by the segments \<open>rs\<close>, the variable enters the required
  outputs of every scope below \<open>path2\<close> on the way to the producer, the producer's scope
  included and \<open>path2\<close> excluded. No required-input list changes, and the entry of every
  other scope, \<open>path2\<close> among them, is left as it was.
\<close>

theorem consumer_prefix_of_producer_marks_outputs:
  assumes "path2 \<noteq> []" and "rs \<noteq> []" and "\<forall>r \<in> set rs. FORWARD_SLASH \<notin> set r"
  shows "(\<forall>k. 1 \<le> k \<and> k \<le> length rs \<longrightarrow>
            var_name \<in> set (required
              (calculate_composite_input_outputs var_name (path2 @ FORWARD_SLASH # join rs) path2 var_map)
              (path2 @ FORWARD_SLASH # join (take k rs)) OUTPUT))
       \<and> (\<forall>s. required
              (calculate_composite_input_outputs var_name (path2 @ FORWARD_SLASH # join rs) path2 var_map)
              s INPUT = required var_map s INPUT)
       \<and> (\<forall>s. (\<forall>k. 1 \<le> k \<and> k \<le> length rs \<longrightarrow> s \<noteq> path2 @ FORWARD_SLASH # join (take k rs)) \<longrightarrow>
              calculate_composite_input_outputs var_name (path2 @ FORWARD_SLASH # join rs) path2 var_map s
              = var_map s)
       \<and> calculate_composite_input_outputs var_name (path2 @ FORWARD_SLASH # join rs) path2 var_map path2
           = var_map path2"
proof -
  let ?ts = "targets var_name (path2 @ FORWARD_SLASH # join rs) path2"
  note ts = targets_upstream [OF assms, of var_name]
  have reach: "var_name \<in> set (required (adds ?ts var_map)
                  (path2 @ FORWARD_SLASH # join (take k rs)) OUTPUT)"
    if lo: "1 \<le> k" and hi: "k \<le> length rs" for k
  proof -
    obtain i where "k = i + 1" "i < length rs" using lo hi by (cases k) auto
    then have "(OUTPUT, var_name, path2 @ FORWARD_SLASH # join (take k rs)) \<in> set ?ts"
      unfolding ts by auto
    then show ?thesis by (rule adds_reaches)
  qed
  have inputs: "required (adds ?ts var_map) s INPUT = required var_map s INPUT" for s
    by (rule adds_other_slot) (auto simp: ts INPUT_def OUTPUT_def)
  have others: "adds ?ts var_map s = var_map s"
    if "\<forall>k. 1 \<le> k \<and> k \<le> length rs \<longrightarrow> s \<noteq> path2 @ FORWARD_SLASH # join (take k rs)" for s
  proof (rule adds_other_scope)
    show "\<forall>(slot, v, scope) \<in> set ?ts. scope \<noteq> s"
      unfolding ts using that by (auto simp: Suc_le_eq)
  qed
  have "adds ?ts var_map path2 = var_map path2"
    by (rule others) simp
  with reach inputs others show ?thesis
    unfolding calculate_adds by blast
qed

theorem consumer_prefix_of_producer_marks_outputs_witness:
  "''a'' \<noteq> [] \<and> [''b'', ''c''] \<noteq> []
   \<and> FORWARD_SLASH \<notin> set ''b'' \<and> FORWARD_SLASH \<notin> set ''c''
   \<and> ''v'' \<in> set (required (calculate_composite_input_outputs ''v'' ''a/b/c'' ''a'' Map.empty)
                    ''a/b'' OUTPUT)
   \<and> ''v'' \<in> set (required (calculate_composite_input_outputs ''v'' ''a/b/c'' ''a'' Map.empty)
                    ''a/b/c'' OUTPUT)
   \<and> required (calculate_composite_input_outputs ''v'' ''a/b/c'' ''a'' Map.empty) ''a'' INPUT = []
   \<and> calculate_composite_input_outputs ''v'' ''a/b/c'' ''a'' Map.empty ''a'' = None
   \<and> calculate_composite_input_outputs ''v'' ''a/b/c'' ''a'' Map.empty ''z'' = None"
proof -
  note t = consumer_prefix_of_producer_marks_outputs
             [of "''a''" "[''b'', ''c'']" "''v''" Map.empty, simplified]
  from t have k1: "''v'' \<in> set (required (calculate_composite_input_outputs ''v'' ''a/b/c'' ''a'' Map.empty)
                    ''a/b'' OUTPUT)"
    by (elim conjE allE [of _ 1]) simp
  from t have k2: "''v'' \<in> set (required (calculate_composite_input_outputs ''v'' ''a/b/c'' ''a'' Map.empty)
                    ''a/b/c'' OUTPUT)"
    by (elim conjE allE [of _ 2]) simp
  from t have inp: "required (calculate_composite_input_outputs ''v'' ''a/b/c'' ''a'' Map.empty) ''a'' INPUT = []"
    by (simp add: required_def)
  from t have a: "calculate_composite_input_outputs ''v'' ''a/b/c'' ''a'' Map.empty ''a'' = None"
    by simp
  from t have "(\<forall>k. 1 \<le> k \<and> k \<le> length [''b'', ''c''] \<longrightarrow> ''z'' \<noteq> ''a'' @ FORWARD_SLASH # join (take k [''b'', ''c''])) \<longrightarrow>
     calculate_composite_input_outputs ''v'' ''a/b/c'' ''a'' Map.empty ''z'' = None"
    by (elim conjE allE [of _ "''z''"]) simp
  then have z: "calculate_composite_input_outputs ''v'' ''a/b/c'' ''a'' Map.empty ''z'' = None"
    by simp
  from k1 k2 inp a z show ?thesis by simp
qed

subsection \<open>Cross-stream links\<close>

text \<open>
  Claim C4 at the sibling scopes \<^verbatim>\<open>block_1\<close> and \<^verbatim>\<open>block_10\<close>. Each path is a single
  segment and the segments differ, so neither scope is an ancestor of the other and they
  share no ancestor. The claim gives the producer's scope a required output and the
  consumer's a required input. The code compares the paths with \<^verbatim>\<open>startswith\<close>, takes
  one for a prefix of the other because its characters are, finds no segments left over,
  and adds nothing, whichever of the two is the producer. For a graph with a link between
  operations of the two scopes the link map is compiled with an empty variable map, and the
  conversion then ends in the router's own check that the consumer's scope declares the
  variable as an input.
\<close>

theorem sibling_scopes_sharing_characters_get_nothing:
  "split ''block_1'' = [''block_1''] \<and> split ''block_10'' = [''block_10'']
   \<and> calculate_composite_input_outputs ''v'' ''block_1'' ''block_10'' Map.empty = Map.empty
   \<and> calculate_composite_input_outputs ''v'' ''block_10'' ''block_1'' Map.empty = Map.empty
   \<and> iterates ['''', ''block_1'', ''block_10''] sibling_example
   \<and> compile_onnx_composite_link_map sibling_example (name_to_op_of sibling_example) Map.empty
       = Inr ([(''block_10'', graph_onnx_links sibling_example)], Map.empty)
   \<and> root_of (onnx_graph_to_graphbook ['''', ''block_1'', ''block_10''] sibling_example)
       = Inl (ValueError ''Expected link var name to be in composite inputs'')"
proof (intro conjI)
  show "split ''block_1'' = [''block_1'']" "split ''block_10'' = [''block_10'']"
    by simp_all
  show "calculate_composite_input_outputs ''v'' ''block_1'' ''block_10'' Map.empty = Map.empty"
    "calculate_composite_input_outputs ''v'' ''block_10'' ''block_1'' Map.empty = Map.empty"
    by (simp_all add: calculate_composite_input_outputs_def startswith_def)
  show "iterates ['''', ''block_1'', ''block_10''] sibling_example"
    by (simp add: iterates_def sibling_example_def compile_onnx_composite_map_def
          insert_commute)
  show "compile_onnx_composite_link_map sibling_example (name_to_op_of sibling_example) Map.empty
       = Inr ([(''block_10'', graph_onnx_links sibling_example)], Map.empty)"
    by (simp add: compile_onnx_composite_link_map_def sibling_example_def name_to_op_of_def
          link_step_def calculate_composite_input_outputs_def startswith_def)
  show "root_of (onnx_graph_to_graphbook ['''', ''block_1'', ''block_10''] sibling_example)
       = Inl (ValueError ''Expected link var name to be in composite inputs'')"
    by code_simp
qed

section \<open>The link map\<close>

lemma fold_err_append:
  "fold_err f (xs @ ys) s = (case fold_err f xs s of Inl e \<Rightarrow> Inl e | Inr s' \<Rightarrow> fold_err f ys s')"
  by (induction xs arbitrary: s) (auto split: sum.splits)

lemma link_step_links_update [simp]:
  "link_step (g\<lparr>graph_onnx_links := ls\<rparr>) = link_step g"
  by (intro ext) (simp add: link_step_def cong: if_cong option.case_cong prod.case_cong)

lemma name_to_op_of_links_update [simp]:
  "name_to_op_of (g\<lparr>graph_onnx_links := ls\<rparr>) = name_to_op_of g"
  by (simp add: name_to_op_of_def)

lemma compile_onnx_composite_map_links_update [simp]:
  "compile_onnx_composite_map (g\<lparr>graph_onnx_links := ls\<rparr>) = compile_onnx_composite_map g"
  by (intro ext) (simp add: compile_onnx_composite_map_def cong: if_cong prod.case_cong)

lemma assemble_step_links_update [simp]:
  "assemble_step (g\<lparr>graph_onnx_links := ls\<rparr>) = assemble_step g"
  by (intro ext) (simp add: assemble_step_def cong: if_cong option.case_cong prod.case_cong)

lemma wire_step_links_update [simp]:
  "wire_step (g\<lparr>graph_onnx_links := ls\<rparr>) = wire_step g"
  by (intro ext) (simp add: wire_step_def cong: if_cong option.case_cong prod.case_cong)

lemma route_link_links_update [simp]:
  "route_link (g\<lparr>graph_onnx_links := ls\<rparr>) = route_link g"
  by (intro ext) (simp add: route_link_def cong: if_cong option.case_cong prod.case_cong)

lemma route_links_links_update [simp]:
  "route_links (g\<lparr>graph_onnx_links := ls\<rparr>) = route_links g"
  by (intro ext) (simp add: route_links_def cong: if_cong option.case_cong prod.case_cong)

lemma compile_graphbook_operations_links_update [simp]:
  "compile_graphbook_operations_from_composite_map (g\<lparr>graph_onnx_links := ls\<rparr>) =
   compile_graphbook_operations_from_composite_map g"
  by (intro ext) (simp add: compile_graphbook_operations_from_composite_map_def)

lemma compile_links_between_composite_links_update [simp]:
  "compile_links_between_composite (g\<lparr>graph_onnx_links := ls\<rparr>) =
   compile_links_between_composite g"
  by (intro ext) (simp add: compile_links_between_composite_def)

lemma compile_links_between_composite_and_primitive_links_update [simp]:
  "compile_links_between_composite_and_primitive (g\<lparr>graph_onnx_links := ls\<rparr>) =
   compile_links_between_composite_and_primitive g"
  by (intro ext) (simp add: compile_links_between_composite_and_primitive_def)

lemma conversion_reads_links_once:
  "onnx_graph_to_graphbook names (g\<lparr>graph_onnx_links := ls\<rparr>) =
     (case fold_err (link_step g (name_to_op_of g)) ls ([], Map.empty) of
        Inl e \<Rightarrow> Inl e
      | Inr (composite_link_map, cvm) \<Rightarrow>
          (let st = compile_graphbook_operations_from_composite_map
                      g (fst (compile_onnx_composite_map g {[]})) names Map.empty cvm
           in case compile_links_between_composite g (graphbook_composite_map st) names of
                Inl e \<Rightarrow> Inl e
              | Inr store1 \<Rightarrow>
                  (case compile_links_between_composite_and_primitive g store1
                          (primitive_map st) composite_link_map of
                     Inl e \<Rightarrow> Inl e
                   | Inr store2 \<Rightarrow>
                       (case store2 (graph_name g) of
                          None \<Rightarrow> Inl (KeyError (graph_name g))
                        | Some root \<Rightarrow> Inr (root, store2)))))"
  by (simp add: onnx_graph_to_graphbook_def compile_onnx_composite_link_map_def
        cong: sum.case_cong option.case_cong prod.case_cong)

text \<open>When the loop calls the propagator with an empty path: a link to the graph's name
  is propagated upstream with an empty \<open>path2\<close>, and a link from the graph's name to an
  operation in a scope is propagated downstream with an empty \<open>path1\<close>.\<close>

lemma link_step_to_boundary:
  assumes "onnx_link_sink l = graph_name g" and "n2o (onnx_link_source l) = Some source_op"
  shows "link_step g n2o l (clm, cvm) =
         Inr (append_link (graph_name g) l clm,
              calculate_composite_input_outputs (onnx_link_var_name l)
                (onnx_op_composite_path source_op) [] cvm)"
  using assms by (simp add: link_step_def)

lemma link_step_from_boundary:
  assumes "onnx_link_source l = graph_name g" and "onnx_link_sink l \<noteq> graph_name g"
    and "n2o (graph_name g) = None"
    and "n2o (onnx_link_sink l) = Some sink_op" and "onnx_op_composite_path sink_op \<noteq> []"
  shows "link_step g n2o l (clm, cvm) =
         Inr (append_link (onnx_op_composite_path sink_op) l clm,
              calculate_composite_input_outputs (onnx_link_var_name l)
                [] (onnx_op_composite_path sink_op) cvm)"
  using assms by (simp add: link_step_def)

lemma link_step_final_output_skip:
  assumes "onnx_link_sink l \<noteq> graph_name g"
    and "n2o (onnx_link_source l) \<noteq> None"
    and "onnx_link_var_name l \<in> set (graph_outputs g)"
  shows "link_step g n2o l st = Inr st"
  using assms by (cases st) (simp add: link_step_def)

text \<open>
  Claim C10. A link whose sink is not the graph's name, whose source is a known operation
  and whose variable is one of the graph's declared outputs is skipped: the step leaves the
  link map and the variable map as they were, the link map compiled from a link list with
  such a link in it is the one compiled without it, and so is the whole conversion, which
  reads the links nowhere else. The scope paths of the producer and the consumer play no
  part.
\<close>

theorem final_output_links_to_operations_are_discarded:
  assumes "onnx_link_sink l \<noteq> graph_name g"
    and "name_to_op_of g (onnx_link_source l) \<noteq> None"
    and "onnx_link_var_name l \<in> set (graph_outputs g)"
  shows "link_step g (name_to_op_of g) l (clm, cvm)
           = Inr (clm, cvm)
       \<and> compile_onnx_composite_link_map (g\<lparr>graph_onnx_links := before @ l # after\<rparr>)
             (name_to_op_of g) cvm
           = compile_onnx_composite_link_map (g\<lparr>graph_onnx_links := before @ after\<rparr>)
               (name_to_op_of g) cvm
       \<and> onnx_graph_to_graphbook composite_names (g\<lparr>graph_onnx_links := before @ l # after\<rparr>)
           = onnx_graph_to_graphbook composite_names (g\<lparr>graph_onnx_links := before @ after\<rparr>)"
proof -
  have skip: "link_step g (name_to_op_of g) l st = Inr st" for st
    using assms by (rule link_step_final_output_skip)
  have folds: "fold_err (link_step g (name_to_op_of g)) (before @ l # after) st
             = fold_err (link_step g (name_to_op_of g)) (before @ after) st" for st
    by (simp add: fold_err_append skip split: sum.splits)
  show ?thesis
    by (simp add: skip conversion_reads_links_once folds compile_onnx_composite_link_map_def)
qed

theorem final_output_links_to_operations_are_discarded_witness:
  "onnx_link_sink \<lparr>onnx_link_var_name = ''y'', onnx_link_source = ''p'', onnx_link_sink = ''ghost''\<rparr>
     \<noteq> graph_name dangling_example
   \<and> name_to_op_of dangling_example
        (onnx_link_source \<lparr>onnx_link_var_name = ''y'', onnx_link_source = ''p'', onnx_link_sink = ''ghost''\<rparr>)
        \<noteq> None
   \<and> onnx_link_var_name \<lparr>onnx_link_var_name = ''y'', onnx_link_source = ''p'', onnx_link_sink = ''ghost''\<rparr>
        \<in> set (graph_outputs dangling_example)
   \<and> link_step dangling_example (name_to_op_of dangling_example)
        \<lparr>onnx_link_var_name = ''y'', onnx_link_source = ''p'', onnx_link_sink = ''ghost''\<rparr>
        ([], Map.empty) = Inr ([], Map.empty)
   \<and> onnx_graph_to_graphbook ['''']
        (dangling_example\<lparr>graph_onnx_links :=
           [\<lparr>onnx_link_var_name = ''y'', onnx_link_source = ''p'', onnx_link_sink = ''g''\<rparr>,
            \<lparr>onnx_link_var_name = ''y'', onnx_link_source = ''p'', onnx_link_sink = ''ghost''\<rparr>]\<rparr>)
       = onnx_graph_to_graphbook ['''']
           (dangling_example\<lparr>graph_onnx_links :=
              [\<lparr>onnx_link_var_name = ''y'', onnx_link_source = ''p'', onnx_link_sink = ''g''\<rparr>]\<rparr>)"
proof -
  let ?l = "\<lparr>onnx_link_var_name = ''y'', onnx_link_source = ''p'', onnx_link_sink = ''ghost''\<rparr>"
  let ?k = "\<lparr>onnx_link_var_name = ''y'', onnx_link_source = ''p'', onnx_link_sink = ''g''\<rparr>"
  have h1: "onnx_link_sink ?l \<noteq> graph_name dangling_example"
    by (simp add: dangling_example_def)
  have h2: "name_to_op_of dangling_example (onnx_link_source ?l) \<noteq> None"
    by (simp add: dangling_example_def name_to_op_of_def)
  have h3: "onnx_link_var_name ?l \<in> set (graph_outputs dangling_example)"
    by (simp add: dangling_example_def)
  from final_output_links_to_operations_are_discarded
         [OF h1 h2 h3, of "[]" Map.empty "[?k]" "[]" "['''']"]
  show ?thesis using h1 h2 h3 by simp
qed

text \<open>
  Claim C8 says that every link whose sink is neither the graph's name nor an operation
  makes the conversion fail. In \<open>dangling_example\<close> the second link goes to
  \<^verbatim>\<open>ghost\<close>, which is neither, and the conversion returns a root: the link carries a
  declared graph output from a known operation and is skipped before its sink is looked at.
\<close>

theorem dangling_final_output_link_counterexample:
  "iterates [''''] dangling_example
   \<and> onnx_link_sink (graph_onnx_links dangling_example ! 1) = ''ghost''
   \<and> ''ghost'' \<noteq> graph_name dangling_example
   \<and> ''ghost'' \<notin> set (map onnx_op_name (graph_onnx_ops dangling_example))
   \<and> root_of (onnx_graph_to_graphbook [''''] dangling_example) =
       Inr \<lparr>operation_name = ''g'', operation_primitive_name = ''g'',
            operation_type = COMPOSITE_OPERATION, operation_inputs = [],
            operation_outputs = [Variable ''y''],
            operation_operations =
              [Leaf \<lparr>operation_name = ''p'', operation_primitive_name = ''Add'',
                      operation_type = COMPOSITE_OPERATION, operation_inputs = [],
                      operation_outputs = [Variable ''y'']\<rparr>],
            operation_links =
              [\<lparr>link_source = LinkEndpoint ''p'' ''y'', link_sink = LinkEndpoint ''g'' ''y'',
                link_var_name = Some ''y''\<rparr>]\<rparr>"
proof -
  have "iterates [''''] dangling_example"
    by (simp add: iterates_def dangling_example_def compile_onnx_composite_map_def)
  moreover have
    "onnx_link_sink (graph_onnx_links dangling_example ! 1) = ''ghost''
   \<and> ''ghost'' \<noteq> graph_name dangling_example
   \<and> ''ghost'' \<notin> set (map onnx_op_name (graph_onnx_ops dangling_example))
   \<and> root_of (onnx_graph_to_graphbook [''''] dangling_example) =
       Inr \<lparr>operation_name = ''g'', operation_primitive_name = ''g'',
            operation_type = COMPOSITE_OPERATION, operation_inputs = [],
            operation_outputs = [Variable ''y''],
            operation_operations =
              [Leaf \<lparr>operation_name = ''p'', operation_primitive_name = ''Add'',
                      operation_type = COMPOSITE_OPERATION, operation_inputs = [],
                      operation_outputs = [Variable ''y'']\<rparr>],
            operation_links =
              [\<lparr>link_source = LinkEndpoint ''p'' ''y'', link_sink = LinkEndpoint ''g'' ''y'',
                link_var_name = Some ''y''\<rparr>]\<rparr>"
    by code_simp
  ultimately show ?thesis by simp
qed

lemma link_step_unknown_sink:
  assumes "onnx_link_sink l \<noteq> graph_name g"
    and "n2o (onnx_link_sink l) = None"
    and "n2o (onnx_link_source l) = None \<or> onnx_link_var_name l \<notin> set (graph_outputs g)"
  shows "link_step g n2o l st =
         Inl (ValueError (''Link sink '' @ onnx_link_sink l @ '' not recognized''))"
  using assms by (cases st) (auto simp: link_step_def)

text \<open>
  Claim C8 as the code has it. A link whose sink is neither the graph's name nor an
  operation, and which is not skipped as a final output (its source is unknown or its
  variable is not a declared graph output), stops the compilation of the link map: with
  the exception of an earlier link if one raised, and with the \<^verbatim>\<open>ValueError\<close> for the
  unrecognised sink otherwise. The conversion ends with the same exception, before any
  composite is built, and returns no root.
\<close>

theorem unknown_sink_aborts_conversion:
  assumes "graph_onnx_links g = before @ l # after"
    and "onnx_link_sink l \<noteq> graph_name g"
    and "name_to_op_of g (onnx_link_sink l) = None"
    and "name_to_op_of g (onnx_link_source l) = None
         \<or> onnx_link_var_name l \<notin> set (graph_outputs g)"
  shows "compile_onnx_composite_link_map g (name_to_op_of g) Map.empty =
           (case fold_err (link_step g (name_to_op_of g)) before ([], Map.empty) of
              Inl e \<Rightarrow> Inl e
            | Inr st \<Rightarrow>
                Inl (ValueError (''Link sink '' @ onnx_link_sink l @ '' not recognized'')))
       \<and> onnx_graph_to_graphbook composite_names g =
           (case fold_err (link_step g (name_to_op_of g)) before ([], Map.empty) of
              Inl e \<Rightarrow> Inl e
            | Inr st \<Rightarrow>
                Inl (ValueError (''Link sink '' @ onnx_link_sink l @ '' not recognized'')))
       \<and> isl (onnx_graph_to_graphbook composite_names g)"
proof -
  let ?err = "ValueError (''Link sink '' @ onnx_link_sink l @ '' not recognized'')"
  have step: "link_step g (name_to_op_of g) l st = Inl ?err" for st
    using assms(2-4) by (rule link_step_unknown_sink)
  have compile: "compile_onnx_composite_link_map g (name_to_op_of g) Map.empty =
      (case fold_err (link_step g (name_to_op_of g)) before ([], Map.empty) of
         Inl e \<Rightarrow> Inl e | Inr st \<Rightarrow> Inl ?err)"
    by (simp add: compile_onnx_composite_link_map_def assms(1) fold_err_append step
          cong: sum.case_cong)
  have conv: "onnx_graph_to_graphbook composite_names g =
      (case compile_onnx_composite_link_map g (name_to_op_of g) Map.empty of
         Inl e \<Rightarrow> Inl e | Inr st \<Rightarrow> onnx_graph_to_graphbook composite_names g)"
    by (simp add: onnx_graph_to_graphbook_def Let_def split: sum.splits)
  have conv': "onnx_graph_to_graphbook composite_names g =
      (case fold_err (link_step g (name_to_op_of g)) before ([], Map.empty) of
         Inl e \<Rightarrow> Inl e | Inr st \<Rightarrow> Inl ?err)"
    by (subst conv) (simp add: compile split: sum.splits)
  have "isl (onnx_graph_to_graphbook composite_names g)"
    by (subst conv') (simp split: sum.splits)
  with compile conv' show ?thesis by blast
qed

theorem unknown_sink_aborts_conversion_witness:
  "graph_onnx_links (dangling_example\<lparr>graph_outputs := []\<rparr>) =
     [\<lparr>onnx_link_var_name = ''y'', onnx_link_source = ''p'', onnx_link_sink = ''g''\<rparr>]
     @ \<lparr>onnx_link_var_name = ''y'', onnx_link_source = ''p'', onnx_link_sink = ''ghost''\<rparr> # []
   \<and> ''ghost'' \<noteq> graph_name (dangling_example\<lparr>graph_outputs := []\<rparr>)
   \<and> name_to_op_of (dangling_example\<lparr>graph_outputs := []\<rparr>) ''ghost'' = None
   \<and> ''y'' \<notin> set (graph_outputs (dangling_example\<lparr>graph_outputs := []\<rparr>))
   \<and> onnx_graph_to_graphbook [''''] (dangling_example\<lparr>graph_outputs := []\<rparr>) =
       Inl (ValueError ''Link sink ghost not recognized'')"
proof -
  let ?g = "dangling_example\<lparr>graph_outputs := []\<rparr>"
  let ?k = "\<lparr>onnx_link_var_name = ''y'', onnx_link_source = ''p'', onnx_link_sink = ''g''\<rparr>"
  let ?l = "\<lparr>onnx_link_var_name = ''y'', onnx_link_source = ''p'', onnx_link_sink = ''ghost''\<rparr>"
  have h1: "graph_onnx_links ?g = [?k] @ ?l # []"
    by (simp add: dangling_example_def)
  have h2: "onnx_link_sink ?l \<noteq> graph_name ?g"
    by (simp add: dangling_example_def)
  have h3: "name_to_op_of ?g (onnx_link_sink ?l) = None"
    by (simp add: dangling_example_def name_to_op_of_def)
  have h4: "name_to_op_of ?g (onnx_link_source ?l) = None
            \<or> onnx_link_var_name ?l \<notin> set (graph_outputs ?g)"
    by simp
  have first: "fold_err (link_step ?g (name_to_op_of ?g)) [?k] ([], Map.empty)
               = Inr ([(''g'', [?k])], Map.empty)"
    by (simp add: link_step_def dangling_example_def name_to_op_of_def
          calculate_composite_input_outputs_def)
  from unknown_sink_aborts_conversion [OF h1 h2 h3 h4, of "['''']"]
  show ?thesis using h1 h2 h3 first by simp
qed

section \<open>The router at the root\<close>




section \<open>Running the propagator again\<close>

lemma shapeI:
  "(\<And>clm vm. f (clm, vm) = Inr (F clm, adds ts vm)) \<Longrightarrow>
   \<exists>F ts. \<forall>clm vm. f (clm, vm) = Inr (F clm, adds ts vm)"
  by blast

lemma link_step_shape:
  assumes ok: "link_step g n2o l st0 = Inr st1"
  shows "\<exists>F ts. \<forall>clm vm. link_step g n2o l (clm, vm) = Inr (F clm, adds ts vm)"
proof -
  let ?v = "onnx_link_var_name l"
  obtain c0 v0 where st0: "st0 = (c0, v0)" by (cases st0) auto
  note ok' = ok [unfolded st0]
  show ?thesis
  proof (cases "onnx_link_sink l = graph_name g")
    case True
    then obtain src where src: "n2o (onnx_link_source l) = Some src"
      using ok' by (auto simp: link_step_def split: option.splits)
    show ?thesis
      by (rule shapeI [where F = "append_link (graph_name g) l"
            and ts = "targets ?v (onnx_op_composite_path src) []"])
         (simp add: link_step_def True src calculate_adds)
  next
    case sink: False
    show ?thesis
    proof (cases "n2o (onnx_link_source l) \<noteq> None \<and> ?v \<in> set (graph_outputs g)")
      case True
      show ?thesis
        by (rule shapeI [where F = "\<lambda>c. c" and ts = "[]"])
           (use True sink in \<open>simp add: link_step_def adds_Nil\<close>)
    next
      case noskip: False
      then have noskip': "\<not> (\<exists>y. n2o (onnx_link_source l) = Some y) \<or> ?v \<notin> set (graph_outputs g)"
        by auto
      obtain snk where snk: "n2o (onnx_link_sink l) = Some snk"
        using ok' sink noskip by (auto simp: link_step_def split: option.splits if_splits)
      show ?thesis
      proof (cases "onnx_link_source l = graph_name g")
        case True
        show ?thesis
        proof (cases "onnx_op_composite_path snk = []")
          case True
          show ?thesis
            by (rule shapeI [where F = "append_link (graph_name g) l" and ts = "[]"])
               (use True sink noskip snk \<open>onnx_link_source l = graph_name g\<close>
                 in \<open>auto simp: link_step_def adds_Nil\<close>)
        next
          case False
          show ?thesis
            by (rule shapeI [where F = "append_link (onnx_op_composite_path snk) l"
                  and ts = "targets ?v [] (onnx_op_composite_path snk)"])
               (use False sink noskip snk \<open>onnx_link_source l = graph_name g\<close>
                 in \<open>auto simp: link_step_def calculate_adds\<close>)
        qed
      next
        case nosrc: False
        then obtain src where src: "n2o (onnx_link_source l) = Some src"
          using ok' sink noskip snk
          by (auto simp: link_step_def Let_def split: option.splits if_splits)
        with noskip have out: "?v \<notin> set (graph_outputs g)" by simp
        show ?thesis
        proof (cases "onnx_op_composite_path snk = []")
          case True
          show ?thesis
          proof (cases "onnx_op_composite_path src = []")
            case True
            show ?thesis
              by (rule shapeI [where F = "append_link (graph_name g) l" and ts = "[]"])
                 (use True sink out snk src nosrc \<open>onnx_op_composite_path snk = []\<close>
                   in \<open>simp add: link_step_def adds_Nil\<close>)
          next
            case False
            show ?thesis
              by (rule shapeI [where F = "append_link (graph_name g) l"
                    and ts = "targets ?v (onnx_op_composite_path src) (onnx_op_composite_path snk)"])
                 (use False sink out snk src nosrc \<open>onnx_op_composite_path snk = []\<close>
                   in \<open>simp add: link_step_def calculate_adds\<close>)
          qed
        next
          case False
          show ?thesis
          proof (cases "onnx_op_composite_path src = []
                        \<or> onnx_op_composite_path snk \<noteq> onnx_op_composite_path src")
            case True
            show ?thesis
              by (rule shapeI [where F = "append_link (onnx_op_composite_path snk) l"
                    and ts = "targets ?v (onnx_op_composite_path src) (onnx_op_composite_path snk)"])
                 (use True False sink out snk src nosrc
                   in \<open>auto simp: link_step_def calculate_adds\<close>)
          next
            case same: False
            show ?thesis
              by (rule shapeI [where F = "append_link (onnx_op_composite_path snk) l" and ts = "[]"])
                 (use same False sink out snk src nosrc
                   in \<open>auto simp: link_step_def adds_Nil\<close>)
          qed
        qed
      qed
    qed
  qed
qed

lemma fold_link_step_shape:
  "fold_err (link_step g n2o) ls st0 = Inr st1 \<Longrightarrow>
   \<exists>F ts. \<forall>clm vm. fold_err (link_step g n2o) ls (clm, vm) = Inr (F clm, adds ts vm)"
proof (induction ls arbitrary: st0)
  case Nil
  show ?case
    by (rule shapeI [where F = "\<lambda>c. c" and ts = "[]"]) (simp add: adds_Nil)
next
  case (Cons l ls)
  from Cons.prems obtain st' where first: "link_step g n2o l st0 = Inr st'"
    and rest: "fold_err (link_step g n2o) ls st' = Inr st1"
    by (auto split: sum.splits)
  from link_step_shape [OF first] obtain F1 ts1
    where one: "\<And>clm vm. link_step g n2o l (clm, vm) = Inr (F1 clm, adds ts1 vm)"
    by blast
  from Cons.IH [OF rest] obtain F2 ts2
    where more: "\<And>clm vm. fold_err (link_step g n2o) ls (clm, vm) = Inr (F2 clm, adds ts2 vm)"
    by blast
  show ?case
    by (rule shapeI [where F = "\<lambda>c. F2 (F1 c)" and ts = "ts1 @ ts2"])
       (simp add: one more adds_append)
qed

text \<open>
  Claim C6. A second call of the propagator with the same variable name and paths leaves
  the variable map as the first call left it. A call only appends to the lists it finds,
  so each list keeps its first-seen order, and lists without duplicates stay without
  duplicates. The same holds for a whole link list: when compiling the link map from a
  variable map succeeds, compiling it again from the resulting variable map succeeds with
  the same link map and leaves that variable map unchanged.
\<close>

theorem propagation_is_idempotent_and_keeps_order:
  "calculate_composite_input_outputs var_name path1 path2
       (calculate_composite_input_outputs var_name path1 path2 var_map)
     = calculate_composite_input_outputs var_name path1 path2 var_map
   \<and> (\<exists>ys. required (calculate_composite_input_outputs var_name path1 path2 var_map) scope slot
             = required var_map scope slot @ ys)
   \<and> ((\<forall>k s. distinct (required var_map k s)) \<longrightarrow>
        distinct (required (calculate_composite_input_outputs var_name path1 path2 var_map)
                    scope slot))
   \<and> (compile_onnx_composite_link_map g n2o var_map = Inr (clm, var_map') \<longrightarrow>
        compile_onnx_composite_link_map g n2o var_map' = Inr (clm, var_map')
        \<and> (\<exists>ys. required var_map' scope slot = required var_map scope slot @ ys)
        \<and> ((\<forall>k s. distinct (required var_map k s)) \<longrightarrow> distinct (required var_map' scope slot)))"
proof (intro conjI impI)
  show "calculate_composite_input_outputs var_name path1 path2
       (calculate_composite_input_outputs var_name path1 path2 var_map)
     = calculate_composite_input_outputs var_name path1 path2 var_map"
    by (simp add: calculate_adds adds_idem)
  show "\<exists>ys. required (calculate_composite_input_outputs var_name path1 path2 var_map) scope slot
             = required var_map scope slot @ ys"
    unfolding calculate_adds by (rule adds_extends)
  show "distinct (required (calculate_composite_input_outputs var_name path1 path2 var_map)
                    scope slot)"
    if "\<forall>k s. distinct (required var_map k s)"
    unfolding calculate_adds using that by (rule adds_distinct)
next
  assume run: "compile_onnx_composite_link_map g n2o var_map = Inr (clm, var_map')"
  then obtain F ts
    where shape: "\<And>c vm. fold_err (link_step g n2o) (graph_onnx_links g) (c, vm)
                     = Inr (F c, adds ts vm)"
    unfolding compile_onnx_composite_link_map_def
    using fold_link_step_shape by blast
  from run have res: "clm = F []" "var_map' = adds ts var_map"
    by (simp_all add: compile_onnx_composite_link_map_def shape)
  show "compile_onnx_composite_link_map g n2o var_map' = Inr (clm, var_map')"
    by (simp add: compile_onnx_composite_link_map_def shape res adds_idem)
  show "\<exists>ys. required var_map' scope slot = required var_map scope slot @ ys"
    unfolding res by (rule adds_extends)
  show "distinct (required var_map' scope slot)" if "\<forall>k s. distinct (required var_map k s)"
    unfolding res using that by (rule adds_distinct)
qed

lemma nested_example_link_map_compiles:
  "compile_onnx_composite_link_map nested_example (name_to_op_of nested_example) Map.empty
     = Inr (nested_example_link_map, nested_example_var_map)"
proof (cases "compile_onnx_composite_link_map nested_example (name_to_op_of nested_example) Map.empty")
  case (Inl e)
  have "\<not> isl (compile_onnx_composite_link_map nested_example (name_to_op_of nested_example) Map.empty)"
    by code_simp
  with Inl show ?thesis by simp
next
  case (Inr r)
  then show ?thesis
    by (cases r) (simp add: nested_example_link_map_def nested_example_var_map_def)
qed

theorem propagation_is_idempotent_and_keeps_order_witness:
  "calculate_composite_input_outputs ''v'' [] ''x/y/z''
       (calculate_composite_input_outputs ''v'' [] ''x/y/z'' Map.empty)
     = calculate_composite_input_outputs ''v'' [] ''x/y/z'' Map.empty
   \<and> distinct (required (calculate_composite_input_outputs ''v'' [] ''x/y/z'' Map.empty)
                 ''x/y'' INPUT)
   \<and> compile_onnx_composite_link_map nested_example (name_to_op_of nested_example) Map.empty
       = Inr (nested_example_link_map, nested_example_var_map)
   \<and> compile_onnx_composite_link_map nested_example (name_to_op_of nested_example)
         nested_example_var_map
       = Inr (nested_example_link_map, nested_example_var_map)
   \<and> required nested_example_var_map ''/a/b'' INPUT = [''x'']
   \<and> distinct (required nested_example_var_map ''/a/b'' INPUT)"
proof -
  have empty: "\<forall>k s. distinct (required Map.empty k s)"
    by (simp add: required_def)
  have xs: "required nested_example_var_map ''/a/b'' INPUT = [''x'']"
    by code_simp
  from propagation_is_idempotent_and_keeps_order
         [of "''v''" "[]" "''x/y/z''" Map.empty "''x/y''" INPUT
             nested_example "name_to_op_of nested_example"
             nested_example_link_map nested_example_var_map]
       propagation_is_idempotent_and_keeps_order
         [of "''v''" "[]" "''x/y/z''" Map.empty "''/a/b''" INPUT
             nested_example "name_to_op_of nested_example"
             nested_example_link_map nested_example_var_map]
  show ?thesis
    using empty nested_example_link_map_compiles xs by simp
qed

section \<open>Links across composite boundaries\<close>

lemma extends_refl: "extends s s"
  by (simp add: extends_def)

lemma extends_update:
  assumes "s k = Some c"
    and "operation_inputs c' = operation_inputs c"
    and "operation_outputs c' = operation_outputs c"
    and "set (operation_operations c) \<subseteq> set (operation_operations c')"
    and "set (operation_links c) \<subseteq> set (operation_links c')"
  shows "extends s (s(k \<mapsto> c'))"
  using assms by (auto simp: extends_def)

lemma links_append_extends: "s k = Some c \<Longrightarrow> extends s (links_append k c l s)"
  unfolding links_append_def by (rule extends_update) auto

lemma extends_trans:
  assumes ab: "extends a b" and bc: "extends b c"
  shows "extends a c"
  unfolding extends_def
proof (intro allI impI)
  fix k x assume "a k = Some x"
  with ab obtain y where y: "b k = Some y"
    "operation_inputs y = operation_inputs x" "operation_outputs y = operation_outputs x"
    "set (operation_operations x) \<subseteq> set (operation_operations y)"
    "set (operation_links x) \<subseteq> set (operation_links y)"
    unfolding extends_def by blast
  from bc y(1) obtain z where z: "c k = Some z"
    "operation_inputs z = operation_inputs y" "operation_outputs z = operation_outputs y"
    "set (operation_operations y) \<subseteq> set (operation_operations z)"
    "set (operation_links y) \<subseteq> set (operation_links z)"
    unfolding extends_def by blast
  from y z show "\<exists>c'. c k = Some c'
      \<and> operation_inputs c' = operation_inputs x
      \<and> operation_outputs c' = operation_outputs x
      \<and> set (operation_operations x) \<subseteq> set (operation_operations c')
      \<and> set (operation_links x) \<subseteq> set (operation_links c')"
    by auto
qed

lemma wire_step_skip:
  "name = graph_name g \<or> length (split name) \<le> 1 \<Longrightarrow> wire_step g name s = Inr s"
  unfolding wire_step_def Let_def by (cases "name = graph_name g") simp_all

lemma wire_step_missing_child:
  "name \<noteq> graph_name g \<Longrightarrow> 1 < length (split name) \<Longrightarrow> s name = None \<Longrightarrow>
   wire_step g name s = Inl (KeyError name)"
  unfolding wire_step_def Let_def by simp

lemma wire_step_missing_parent:
  "name \<noteq> graph_name g \<Longrightarrow> 1 < length (split name) \<Longrightarrow> s name = Some sub_op \<Longrightarrow>
   s (if join (butlast (split name)) = [] then graph_name g else join (butlast (split name)))
     = None \<Longrightarrow>
   isl (wire_step g name s)"
  unfolding wire_step_def Let_def by simp

lemma wire_step_wires:
  "name \<noteq> graph_name g \<Longrightarrow> 1 < length (split name) \<Longrightarrow> s name = Some sub_op \<Longrightarrow>
   s (if join (butlast (split name)) = [] then graph_name g else join (butlast (split name)))
     = Some parent \<Longrightarrow>
   wire_step g name s =
     Inr (s((if join (butlast (split name)) = [] then graph_name g
             else join (butlast (split name))) \<mapsto>
            parent\<lparr>operation_operations := operation_operations parent @ [Nested name],
                    operation_links :=
                      operation_links parent
                      @ [Link (LinkEndpoint ''this'' (variable_name inp))
                              (LinkEndpoint name (variable_name inp)).
                         inp \<leftarrow> operation_inputs sub_op,
                         comp_inp \<leftarrow> operation_inputs parent,
                         variable_name inp = variable_name comp_inp]
                      @ [Link (LinkEndpoint name (variable_name out))
                              (LinkEndpoint ''this'' (variable_name out)).
                         out \<leftarrow> operation_outputs sub_op,
                         comp_out \<leftarrow> operation_outputs parent,
                         variable_name out = variable_name comp_out]\<rparr>))"
  unfolding wire_step_def Let_def by simp

lemma wire_step_extends:
  assumes ok: "wire_step g name s = Inr s'"
  shows "extends s s'"
proof (cases "name = graph_name g \<or> length (split name) \<le> 1")
  case True
  with ok have "s' = s" by (simp add: wire_step_skip)
  then show ?thesis by (simp add: extends_refl)
next
  case False
  then have n: "name \<noteq> graph_name g" and len: "1 < length (split name)" by auto
  let ?parent = "if join (butlast (split name)) = [] then graph_name g
                 else join (butlast (split name))"
  from ok n len obtain sub_op where sub: "s name = Some sub_op"
    by (cases "s name") (simp_all add: wire_step_missing_child)
  from ok obtain parent where parent: "s ?parent = Some parent"
    using wire_step_missing_parent [where s = s and g = g and name = name, OF n len sub]
    by (cases "s ?parent") auto
  from ok show ?thesis
    unfolding wire_step_wires [where s = s and g = g and name = name, OF n len sub parent]
    using parent by (auto intro!: extends_update)
qed

lemma route_link_cases:
  assumes ok: "route_link g pm cn l s = Inr s'"
  shows "s' = s \<or> (\<exists>k c lk. s k = Some c \<and> s' = links_append k c lk s)"
proof -
  obtain composite where c: "s cn = Some composite"
    using ok unfolding route_link_def by (cases "s cn") simp_all
  show ?thesis
  proof (cases "onnx_link_source l = graph_name g")
    case True
    with ok c show ?thesis unfolding route_link_def by simp
  next
    case src: False
    obtain p where p: "pm (onnx_link_source l) = Some p"
      using ok c src unfolding route_link_def by (cases "pm (onnx_link_source l)") simp_all
    show ?thesis
    proof (cases "Leaf p \<in> set (operation_operations composite)")
      case True
      with ok c src p show ?thesis unfolding route_link_def by auto
    next
      case leaf: False
      show ?thesis
      proof (cases "cn = graph_name g")
        case True
        with ok c src p leaf show ?thesis
          unfolding route_link_def Let_def
          by (auto split: option.splits if_splits)
      next
        case root: False
        show ?thesis
        proof (cases "startswith (operation_name p) cn")
          case False
          with ok c src p leaf root show ?thesis
            unfolding route_link_def Let_def
            by (auto split: if_splits)
        next
          case True
          with ok c src p leaf root show ?thesis
            unfolding route_link_def Let_def
            by (auto split: option.splits if_splits)
        qed
      qed
    qed
  qed
qed

lemma route_link_extends: "route_link g pm cn l s = Inr s' \<Longrightarrow> extends s s'"
  using route_link_cases [of g pm cn l s s']
  by (auto intro: extends_refl links_append_extends)

lemma fold_err_extends:
  assumes step: "\<And>x s s'. f x s = Inr s' \<Longrightarrow> extends s s'"
  shows "fold_err f xs s = Inr s' \<Longrightarrow> extends s s'"
proof (induction xs arbitrary: s)
  case Nil
  then show ?case by (simp add: extends_refl)
next
  case (Cons x xs)
  from Cons.prems obtain s1 where a: "f x s = Inr s1" and b: "fold_err f xs s1 = Inr s'"
    by (auto split: sum.splits)
  from step [OF a] Cons.IH [OF b] show ?case by (rule extends_trans)
qed

lemma route_links_extends:
  assumes "route_links g pm item s = Inr s'"
  shows "extends s s'"
proof -
  obtain cn ls where item: "item = (cn, ls)" by (cases item) auto
  from assms have "fold_err (route_link g pm cn) ls s = Inr s'"
    unfolding item route_links_def by (cases "s cn") simp_all
  then show ?thesis
    by (rule fold_err_extends [rotated]) (rule route_link_extends)
qed

lemma wirer_reaches:
  assumes run: "fold_err (wire_step g) names s0 = Inr s1" and mem: "name \<in> set names"
  shows "\<exists>sa sb. extends s0 sa \<and> wire_step g name sa = Inr sb \<and> extends sb s1"
proof -
  from mem obtain pre post where names: "names = pre @ name # post"
    by (auto dest: split_list)
  from run obtain sa where pre: "fold_err (wire_step g) pre s0 = Inr sa"
    and rest: "fold_err (wire_step g) (name # post) sa = Inr s1"
    unfolding names fold_err_append by (auto split: sum.splits)
  from rest obtain sb where step: "wire_step g name sa = Inr sb"
    and post: "fold_err (wire_step g) post sb = Inr s1"
    by (auto split: sum.splits)
  have "extends s0 sa"
    using pre by (rule fold_err_extends [rotated]) (rule wire_step_extends)
  moreover have "extends sb s1"
    using post by (rule fold_err_extends [rotated]) (rule wire_step_extends)
  ultimately show ?thesis using step by blast
qed

lemma matching_names:
  assumes "x \<in> set (map variable_name xs)" and "x \<in> set (map variable_name ys)"
  shows "h x \<in> set [h (variable_name i). i \<leftarrow> xs, j \<leftarrow> ys, variable_name i = variable_name j]"
proof -
  from assms obtain i j where "i \<in> set xs" "variable_name i = x" "j \<in> set ys" "variable_name j = x"
    by auto
  then show ?thesis by force
qed

lemma wire_step_links:
  assumes ok: "wire_step g name sa = Inr sb"
    and n: "name \<noteq> graph_name g" and len: "1 < length (split name)"
  shows "\<exists>sub_op parent parent'.
           sa name = Some sub_op
         \<and> sa (if join (butlast (split name)) = [] then graph_name g
                else join (butlast (split name))) = Some parent
         \<and> sb (if join (butlast (split name)) = [] then graph_name g
                else join (butlast (split name))) = Some parent'
         \<and> operation_inputs parent' = operation_inputs parent
         \<and> operation_outputs parent' = operation_outputs parent
         \<and> Nested name \<in> set (operation_operations parent')
         \<and> (\<forall>x. x \<in> set (map variable_name (operation_inputs sub_op))
                \<and> x \<in> set (map variable_name (operation_inputs parent)) \<longrightarrow>
                Link (LinkEndpoint ''this'' x) (LinkEndpoint name x)
                  \<in> set (operation_links parent'))
         \<and> (\<forall>x. x \<in> set (map variable_name (operation_outputs sub_op))
                \<and> x \<in> set (map variable_name (operation_outputs parent)) \<longrightarrow>
                Link (LinkEndpoint name x) (LinkEndpoint ''this'' x)
                  \<in> set (operation_links parent'))"
proof -
  let ?parent = "if join (butlast (split name)) = [] then graph_name g
                 else join (butlast (split name))"
  from ok n len obtain sub_op where sub: "sa name = Some sub_op"
    by (cases "sa name") (simp_all add: wire_step_missing_child)
  from ok obtain parent where parent: "sa ?parent = Some parent"
    using wire_step_missing_parent [where s = sa and g = g and name = name, OF n len sub]
    by (cases "sa ?parent") auto
  note form = wire_step_wires [where s = sa and g = g and name = name, OF n len sub parent]
  let ?parent' = "parent\<lparr>operation_operations := operation_operations parent @ [Nested name],
                    operation_links :=
                      operation_links parent
                      @ [Link (LinkEndpoint ''this'' (variable_name inp))
                              (LinkEndpoint name (variable_name inp)).
                         inp \<leftarrow> operation_inputs sub_op,
                         comp_inp \<leftarrow> operation_inputs parent,
                         variable_name inp = variable_name comp_inp]
                      @ [Link (LinkEndpoint name (variable_name out))
                              (LinkEndpoint ''this'' (variable_name out)).
                         out \<leftarrow> operation_outputs sub_op,
                         comp_out \<leftarrow> operation_outputs parent,
                         variable_name out = variable_name comp_out]\<rparr>"
  from ok form have sb: "sb = sa(?parent \<mapsto> ?parent')" by simp
  have p': "sb ?parent = Some ?parent'" unfolding sb by simp
  have ins: "Link (LinkEndpoint ''this'' x) (LinkEndpoint name x) \<in> set (operation_links ?parent')"
    if "x \<in> set (map variable_name (operation_inputs sub_op))"
       "x \<in> set (map variable_name (operation_inputs parent))" for x
    using matching_names [OF that, of "\<lambda>x. Link (LinkEndpoint ''this'' x) (LinkEndpoint name x)"]
    by simp
  have outs: "Link (LinkEndpoint name x) (LinkEndpoint ''this'' x) \<in> set (operation_links ?parent')"
    if "x \<in> set (map variable_name (operation_outputs sub_op))"
       "x \<in> set (map variable_name (operation_outputs parent))" for x
    using matching_names [OF that, of "\<lambda>x. Link (LinkEndpoint name x) (LinkEndpoint ''this'' x)"]
    by simp
  have "operation_inputs ?parent' = operation_inputs parent"
    "operation_outputs ?parent' = operation_outputs parent"
    "Nested name \<in> set (operation_operations ?parent')"
    by simp_all
  with sub parent p' ins outs show ?thesis by blast
qed

lemma conversion_phases:
  assumes "onnx_graph_to_graphbook names g = Inr (root, store)"
  shows "\<exists>store0 store1 pm clm.
           compile_links_between_composite g store0 names = Inr store1
         \<and> compile_links_between_composite_and_primitive g store1 pm clm = Inr store
         \<and> store (graph_name g) = Some root"
  using assms unfolding onnx_graph_to_graphbook_def Let_def
  by (auto split: sum.splits option.splits prod.splits)

text \<open>
  Claim C9 says that in the assembled tree every declared input of a composite is carried
  by one of its links from \<^verbatim>\<open>this\<close> and every declared output by one of its links to
  \<^verbatim>\<open>this\<close>. The flat example has one root-level operation fed by the graph's input
  \<open>x\<close> and feeding the graph's output \<open>y\<close>. Its root declares \<open>x\<close> and \<open>y\<close> and
  holds a single link, from the operation to the endpoint named after the graph: the
  router skips the link that starts at the graph boundary, and no link of the root has
  \<^verbatim>\<open>this\<close> at either end.
\<close>

theorem flat_graph_interface_counterexample:
  "iterates [''''] flat_example
   \<and> root_of (onnx_graph_to_graphbook [''''] flat_example) =
     Inr \<lparr>operation_name = ''g'', operation_primitive_name = ''g'',
          operation_type = COMPOSITE_OPERATION,
          operation_inputs = [Variable ''x''],
          operation_outputs = [Variable ''y''],
          operation_operations =
            [Leaf \<lparr>operation_name = ''p'', operation_primitive_name = ''Add'',
                    operation_type = COMPOSITE_OPERATION,
                    operation_inputs = [Variable ''x''],
                    operation_outputs = [Variable ''y'']\<rparr>],
          operation_links =
            [\<lparr>link_source = LinkEndpoint ''p'' ''y'', link_sink = LinkEndpoint ''g'' ''y'',
              link_var_name = Some ''y''\<rparr>]\<rparr>"
proof
  show "iterates [''''] flat_example"
    by (simp add: iterates_def flat_example_def compile_onnx_composite_map_def)
  show "root_of (onnx_graph_to_graphbook [''''] flat_example) =
     Inr \<lparr>operation_name = ''g'', operation_primitive_name = ''g'',
          operation_type = COMPOSITE_OPERATION,
          operation_inputs = [Variable ''x''],
          operation_outputs = [Variable ''y''],
          operation_operations =
            [Leaf \<lparr>operation_name = ''p'', operation_primitive_name = ''Add'',
                    operation_type = COMPOSITE_OPERATION,
                    operation_inputs = [Variable ''x''],
                    operation_outputs = [Variable ''y'']\<rparr>],
          operation_links =
            [\<lparr>link_source = LinkEndpoint ''p'' ''y'', link_sink = LinkEndpoint ''g'' ''y'',
              link_var_name = Some ''y''\<rparr>]\<rparr>"
    by code_simp
qed

text \<open>
  Claim C9 as the code has it. In the result of a conversion, every scope the wirer
  handles (a scope other than the graph's name with more than one path segment) is a child
  of its parent composite, and for every name that both the scope and its parent declare
  as an input the parent holds a link from \<^verbatim>\<open>this\<close> to the scope; for every name both
  declare as an output the parent holds a link from the scope to \<^verbatim>\<open>this\<close>. Names the
  parent declares and no nested scope shares are not covered.
\<close>

theorem wirer_links_names_shared_with_parent:
  assumes conv: "onnx_graph_to_graphbook composite_names g = Inr (root, store)"
    and mem: "name \<in> set composite_names"
    and n: "name \<noteq> graph_name g"
    and len: "1 < length (split name)"
  shows "\<exists>sub_op parent.
           store name = Some sub_op
         \<and> store (if join (butlast (split name)) = [] then graph_name g
                   else join (butlast (split name))) = Some parent
         \<and> Nested name \<in> set (operation_operations parent)
         \<and> (\<forall>x. x \<in> set (map variable_name (operation_inputs sub_op))
                \<and> x \<in> set (map variable_name (operation_inputs parent)) \<longrightarrow>
                Link (LinkEndpoint ''this'' x) (LinkEndpoint name x)
                  \<in> set (operation_links parent))
         \<and> (\<forall>x. x \<in> set (map variable_name (operation_outputs sub_op))
                \<and> x \<in> set (map variable_name (operation_outputs parent)) \<longrightarrow>
                Link (LinkEndpoint name x) (LinkEndpoint ''this'' x)
                  \<in> set (operation_links parent))"
proof -
  let ?P = "if join (butlast (split name)) = [] then graph_name g
            else join (butlast (split name))"
  from conversion_phases [OF conv] obtain store0 store1 pm clm
    where wirer: "compile_links_between_composite g store0 composite_names = Inr store1"
      and router: "compile_links_between_composite_and_primitive g store1 pm clm = Inr store"
    by blast
  have routed: "extends store1 store"
    using router unfolding compile_links_between_composite_and_primitive_def
    by (rule fold_err_extends [rotated]) (rule route_links_extends)
  from wirer mem obtain sa sb
    where step: "wire_step g name sa = Inr sb" and after: "extends sb store1"
    unfolding compile_links_between_composite_def
    using wirer_reaches by blast
  have sa_sb: "extends sa sb" using step by (rule wire_step_extends)
  have sb_store: "extends sb store" using after routed by (rule extends_trans)
  have sa_store: "extends sa store" using sa_sb sb_store by (rule extends_trans)
  from wire_step_links [OF step n len] obtain sub0 parent0 parent1
    where sub0: "sa name = Some sub0"
      and parent0: "sa ?P = Some parent0"
      and parent1: "sb ?P = Some parent1"
      and same_in: "operation_inputs parent1 = operation_inputs parent0"
      and same_out: "operation_outputs parent1 = operation_outputs parent0"
      and child: "Nested name \<in> set (operation_operations parent1)"
      and ins: "\<And>x. x \<in> set (map variable_name (operation_inputs sub0)) \<Longrightarrow>
                  x \<in> set (map variable_name (operation_inputs parent0)) \<Longrightarrow>
                  Link (LinkEndpoint ''this'' x) (LinkEndpoint name x)
                    \<in> set (operation_links parent1)"
      and outs: "\<And>x. x \<in> set (map variable_name (operation_outputs sub0)) \<Longrightarrow>
                  x \<in> set (map variable_name (operation_outputs parent0)) \<Longrightarrow>
                  Link (LinkEndpoint name x) (LinkEndpoint ''this'' x)
                    \<in> set (operation_links parent1)"
    by blast
  from sa_store sub0 obtain sub_op
    where sub: "store name = Some sub_op"
      and sub_in: "operation_inputs sub_op = operation_inputs sub0"
      and sub_out: "operation_outputs sub_op = operation_outputs sub0"
    unfolding extends_def by blast
  from sb_store parent1 obtain parent
    where parent: "store ?P = Some parent"
      and par_in: "operation_inputs parent = operation_inputs parent1"
      and par_out: "operation_outputs parent = operation_outputs parent1"
      and par_ops: "set (operation_operations parent1) \<subseteq> set (operation_operations parent)"
      and par_links: "set (operation_links parent1) \<subseteq> set (operation_links parent)"
    unfolding extends_def by blast
  have "Nested name \<in> set (operation_operations parent)"
    using child par_ops by blast
  moreover have "Link (LinkEndpoint ''this'' x) (LinkEndpoint name x) \<in> set (operation_links parent)"
    if "x \<in> set (map variable_name (operation_inputs sub_op))
        \<and> x \<in> set (map variable_name (operation_inputs parent))" for x
    using that ins [of x] par_links unfolding sub_in par_in same_in by blast
  moreover have "Link (LinkEndpoint name x) (LinkEndpoint ''this'' x) \<in> set (operation_links parent)"
    if "x \<in> set (map variable_name (operation_outputs sub_op))
        \<and> x \<in> set (map variable_name (operation_outputs parent))" for x
    using that outs [of x] par_links unfolding sub_out par_out same_out by blast
  ultimately show ?thesis using sub parent by blast
qed

lemma nested_example_converts:
  "onnx_graph_to_graphbook nested_example_names nested_example =
     Inr (\<lparr>operation_name = ''g'', operation_primitive_name = ''g'',
           operation_type = COMPOSITE_OPERATION,
           operation_inputs = [Variable ''x''], operation_outputs = [Variable ''y''],
           operation_operations = [Nested ''/a''],
           operation_links =
             [Link (LinkEndpoint ''this'' ''x'') (LinkEndpoint ''/a'' ''x''),
              Link (LinkEndpoint ''/a'' ''y'') (LinkEndpoint ''this'' ''y'')]\<rparr>,
          nested_example_store)"
proof (cases "onnx_graph_to_graphbook nested_example_names nested_example")
  case (Inl e)
  have "\<not> isl (onnx_graph_to_graphbook nested_example_names nested_example)"
    by code_simp
  with Inl show ?thesis by simp
next
  case (Inr r)
  obtain root store where r: "r = (root, store)" by (cases r) auto
  have "root_of (onnx_graph_to_graphbook nested_example_names nested_example) =
     Inr \<lparr>operation_name = ''g'', operation_primitive_name = ''g'',
           operation_type = COMPOSITE_OPERATION,
           operation_inputs = [Variable ''x''], operation_outputs = [Variable ''y''],
           operation_operations = [Nested ''/a''],
           operation_links =
             [Link (LinkEndpoint ''this'' ''x'') (LinkEndpoint ''/a'' ''x''),
              Link (LinkEndpoint ''/a'' ''y'') (LinkEndpoint ''this'' ''y'')]\<rparr>"
    by code_simp
  with Inr r show ?thesis
    by (simp add: root_of_def nested_example_store_def)
qed

lemma nested_example_iterates: "iterates nested_example_names nested_example"
  by (simp add: iterates_def nested_example_names_def nested_example_def
        compile_onnx_composite_map_def Let_def insert_commute)

theorem wirer_links_names_shared_with_parent_witness:
  "onnx_graph_to_graphbook nested_example_names nested_example =
     Inr (\<lparr>operation_name = ''g'', operation_primitive_name = ''g'',
           operation_type = COMPOSITE_OPERATION,
           operation_inputs = [Variable ''x''], operation_outputs = [Variable ''y''],
           operation_operations = [Nested ''/a''],
           operation_links =
             [Link (LinkEndpoint ''this'' ''x'') (LinkEndpoint ''/a'' ''x''),
              Link (LinkEndpoint ''/a'' ''y'') (LinkEndpoint ''this'' ''y'')]\<rparr>,
          nested_example_store)
   \<and> iterates nested_example_names nested_example
   \<and> ''/a/b'' \<in> set nested_example_names
   \<and> ''/a/b'' \<noteq> graph_name nested_example
   \<and> 1 < length (split ''/a/b'')
   \<and> (\<exists>sub_op parent.
         nested_example_store ''/a/b'' = Some sub_op
       \<and> nested_example_store ''/a'' = Some parent
       \<and> Nested ''/a/b'' \<in> set (operation_operations parent)
       \<and> Link (LinkEndpoint ''this'' ''x'') (LinkEndpoint ''/a/b'' ''x'')
            \<in> set (operation_links parent)
       \<and> Link (LinkEndpoint ''/a/b'' ''y'') (LinkEndpoint ''this'' ''y'')
            \<in> set (operation_links parent))"
proof -
  have mem: "''/a/b'' \<in> set nested_example_names"
    by (simp add: nested_example_names_def)
  have n: "''/a/b'' \<noteq> graph_name nested_example"
    by (simp add: nested_example_def)
  have len: "1 < length (split ''/a/b'')"
    by simp
  have child: "map_option (\<lambda>c. (map variable_name (operation_inputs c),
                                   map variable_name (operation_outputs c)))
                 (nested_example_store ''/a/b'') = Some ([''x''], [''y''])"
    by code_simp
  have par: "map_option (\<lambda>c. (map variable_name (operation_inputs c),
                                 map variable_name (operation_outputs c)))
               (nested_example_store ''/a'') = Some ([''x''], [''y''])"
    by code_simp
  from wirer_links_names_shared_with_parent [OF nested_example_converts mem n len]
  obtain sub_op parent
    where sub: "nested_example_store ''/a/b'' = Some sub_op"
      and parent: "nested_example_store ''/a'' = Some parent"
      and nested: "Nested ''/a/b'' \<in> set (operation_operations parent)"
      and ins: "\<And>x. x \<in> set (map variable_name (operation_inputs sub_op)) \<Longrightarrow>
                  x \<in> set (map variable_name (operation_inputs parent)) \<Longrightarrow>
                  Link (LinkEndpoint ''this'' x) (LinkEndpoint ''/a/b'' x)
                    \<in> set (operation_links parent)"
      and outs: "\<And>x. x \<in> set (map variable_name (operation_outputs sub_op)) \<Longrightarrow>
                  x \<in> set (map variable_name (operation_outputs parent)) \<Longrightarrow>
                  Link (LinkEndpoint ''/a/b'' x) (LinkEndpoint ''this'' x)
                    \<in> set (operation_links parent)"
    by (simp del: set_map) blast
  from child sub have c: "map variable_name (operation_inputs sub_op) = [''x'']"
    "map variable_name (operation_outputs sub_op) = [''y'']" by simp_all
  from par parent have p: "map variable_name (operation_inputs parent) = [''x'']"
    "map variable_name (operation_outputs parent) = [''y'']" by simp_all
  have "Link (LinkEndpoint ''this'' ''x'') (LinkEndpoint ''/a/b'' ''x'')
          \<in> set (operation_links parent)"
    by (rule ins) (simp_all add: c p)
  moreover have "Link (LinkEndpoint ''/a/b'' ''y'') (LinkEndpoint ''this'' ''y'')
          \<in> set (operation_links parent)"
    by (rule outs) (simp_all add: c p)
  ultimately show ?thesis
    using nested_example_converts nested_example_iterates mem n len sub parent nested
    by blast
qed

section \<open>The cross-stream case in general\<close>

lemma join_take_inject:
  assumes "0 < a" and "0 < b" and "join (take a (split s)) = join (take b (split t))"
  shows "take a (split s) = take b (split t)"
proof -
  have "split (join (take a (split s))) = split (join (take b (split t)))"
    using assms(3) by simp
  then show ?thesis using assms(1,2) by (simp add: split_join_take)
qed

lemma takeWhile_upt_reaches:
  assumes "i < m" and "\<forall>j \<le> i. P j"
  shows "i \<in> set (takeWhile P [0..<m])"
proof -
  have "[0..<m] = [0..<Suc i] @ [Suc i..<m]"
    using assms(1) by (metis Suc_leI le0 upt_add_eq_append le_add_diff_inverse)
  moreover have "\<forall>x \<in> set [0..<Suc i]. P x" using assms(2) by auto
  ultimately have "takeWhile P [0..<m] = [0..<Suc i] @ takeWhile P [Suc i..<m]"
    by (simp only: takeWhile_append2)
  then show ?thesis by simp
qed

lemma agree_below:
  assumes "take (Suc i) xs = take (Suc i) ys" and "j \<le> i"
  shows "take (Suc j) xs = take (Suc j) ys"
proof -
  have "take (Suc j) (take (Suc i) xs) = take (Suc j) (take (Suc i) ys)"
    using assms(1) by simp
  then show ?thesis using assms(2) by (simp add: min_def)
qed

lemma shared_parts_left:
  assumes i: "i < length (split p1)"
  shows "join (take (i + 1) (split p1)) \<in> set (shared_parts (split p1) (split p2))
         \<longleftrightarrow> take (i + 1) (split p1) = take (i + 1) (split p2)"
proof
  assume "join (take (i + 1) (split p1)) \<in> set (shared_parts (split p1) (split p2))"
  then obtain j where j: "j \<in> set (takeWhile (\<lambda>i. take (i + 1) (split p1) = take (i + 1) (split p2))
                               [0..<min (length (split p1)) (length (split p2))])"
    and eq: "join (take (i + 1) (split p1)) = join (take (j + 1) (split p1))"
    unfolding shared_parts_def by auto
  from j have agree: "take (j + 1) (split p1) = take (j + 1) (split p2)"
    by (rule set_takeWhileD [THEN conjunct2])
  from j have jm: "j < length (split p1)"
    using set_takeWhileD [OF j] by simp
  from eq have "take (i + 1) (split p1) = take (j + 1) (split p1)"
    by (intro join_take_inject) simp_all
  then have "length (take (i + 1) (split p1)) = length (take (j + 1) (split p1))" by simp
  with i jm have "i = j" by simp
  with agree show "take (i + 1) (split p1) = take (i + 1) (split p2)" by simp
next
  assume agree: "take (i + 1) (split p1) = take (i + 1) (split p2)"
  then have "length (take (i + 1) (split p1)) = length (take (i + 1) (split p2))" by simp
  with i have i2: "i < length (split p2)" by (simp add: min_def split: if_splits)
  have "\<forall>j \<le> i. take (j + 1) (split p1) = take (j + 1) (split p2)"
    using agree agree_below [of i "split p1" "split p2"] by simp
  with i i2 have "i \<in> set (takeWhile (\<lambda>i. take (i + 1) (split p1) = take (i + 1) (split p2))
                               [0..<min (length (split p1)) (length (split p2))])"
    by (intro takeWhile_upt_reaches) simp_all
  then show "join (take (i + 1) (split p1)) \<in> set (shared_parts (split p1) (split p2))"
    unfolding shared_parts_def set_map by (rule imageI)
qed

lemma shared_parts_right:
  assumes i: "i < length (split p2)"
  shows "join (take (i + 1) (split p2)) \<in> set (shared_parts (split p1) (split p2))
         \<longleftrightarrow> take (i + 1) (split p1) = take (i + 1) (split p2)"
proof
  assume "join (take (i + 1) (split p2)) \<in> set (shared_parts (split p1) (split p2))"
  then obtain j where j: "j \<in> set (takeWhile (\<lambda>i. take (i + 1) (split p1) = take (i + 1) (split p2))
                               [0..<min (length (split p1)) (length (split p2))])"
    and eq: "join (take (i + 1) (split p2)) = join (take (j + 1) (split p1))"
    unfolding shared_parts_def by auto
  from j have agree: "take (j + 1) (split p1) = take (j + 1) (split p2)"
    by (rule set_takeWhileD [THEN conjunct2])
  from j have jm: "j < length (split p2)"
    using set_takeWhileD [OF j] by simp
  from eq have "take (i + 1) (split p2) = take (j + 1) (split p1)"
    by (intro join_take_inject) simp_all
  with agree have same: "take (i + 1) (split p2) = take (j + 1) (split p2)" by simp
  then have "length (take (i + 1) (split p2)) = length (take (j + 1) (split p2))" by simp
  with i jm have "i = j" by simp
  with agree show "take (i + 1) (split p1) = take (i + 1) (split p2)" by simp
next
  assume agree: "take (i + 1) (split p1) = take (i + 1) (split p2)"
  then have "length (take (i + 1) (split p1)) = length (take (i + 1) (split p2))" by simp
  with i have i1: "i < length (split p1)" by (simp add: min_def split: if_splits)
  from agree have "join (take (i + 1) (split p2)) = join (take (i + 1) (split p1))" by simp
  then show "join (take (i + 1) (split p2)) \<in> set (shared_parts (split p1) (split p2))"
    using shared_parts_left [OF i1, of p2] agree by simp
qed

lemma targets_cross:
  assumes "path1 \<noteq> []" "path2 \<noteq> []" "\<not> startswith path1 path2" "\<not> startswith path2 path1"
  shows "targets v path1 path2 =
        map (\<lambda>i. (OUTPUT, v, join (take (i + 1) (split path1))))
          (filter (\<lambda>i. take (i + 1) (split path1) \<noteq> take (i + 1) (split path2))
             [0..<length (split path1)]) @
        map (\<lambda>i. (INPUT, v, join (take (i + 1) (split path2))))
          (filter (\<lambda>i. take (i + 1) (split path1) \<noteq> take (i + 1) (split path2))
             [0..<length (split path2)])"
proof -
  have l: "filter (\<lambda>i. join (take (i + 1) (split path1))
                         \<notin> set (shared_parts (split path1) (split path2)))
             [0..<length (split path1)]
         = filter (\<lambda>i. take (i + 1) (split path1) \<noteq> take (i + 1) (split path2))
             [0..<length (split path1)]"
    by (rule filter_cong) (simp_all add: shared_parts_left [simplified])
  have r: "filter (\<lambda>i. join (take (i + 1) (split path2))
                         \<notin> set (shared_parts (split path1) (split path2)))
             [0..<length (split path2)]
         = filter (\<lambda>i. take (i + 1) (split path1) \<noteq> take (i + 1) (split path2))
             [0..<length (split path2)]"
    by (rule filter_cong) (simp_all add: shared_parts_right [simplified])
  show ?thesis
    using assms unfolding targets_def l r by simp
qed

text \<open>
  The cross-stream case where the code reaches it: both paths are non-root and neither
  string starts with the other. Every prefix of the producer's path on which the two paths
  differ gets the variable as a required output, every such prefix of the consumer's path
  gets it as a required input, and the entry of every prefix the two paths share is left as
  it was.
\<close>

theorem cross_stream_marks_both_sides:
  assumes "path1 \<noteq> []" and "path2 \<noteq> []"
    and "\<not> startswith path1 path2" and "\<not> startswith path2 path1"
  shows "(\<forall>k. 1 \<le> k \<and> k \<le> length (split path1)
               \<and> take k (split path1) \<noteq> take k (split path2) \<longrightarrow>
             var_name \<in> set (required
               (calculate_composite_input_outputs var_name path1 path2 var_map)
               (join (take k (split path1))) OUTPUT))
       \<and> (\<forall>k. 1 \<le> k \<and> k \<le> length (split path2)
               \<and> take k (split path1) \<noteq> take k (split path2) \<longrightarrow>
             var_name \<in> set (required
               (calculate_composite_input_outputs var_name path1 path2 var_map)
               (join (take k (split path2))) INPUT))
       \<and> (\<forall>k. 1 \<le> k \<and> k \<le> length (split path1)
               \<and> take k (split path1) = take k (split path2) \<longrightarrow>
             calculate_composite_input_outputs var_name path1 path2 var_map
               (join (take k (split path1)))
             = var_map (join (take k (split path1))))"
proof (intro conjI allI impI)
  note ts = targets_cross [OF assms, of var_name]
  fix k
  { assume k: "1 \<le> k \<and> k \<le> length (split path1)
               \<and> take k (split path1) \<noteq> take k (split path2)"
    then obtain i where i: "k = i + 1" "i < length (split path1)" by (cases k) auto
    with k have "(OUTPUT, var_name, join (take k (split path1))) \<in> set (targets var_name path1 path2)"
      unfolding ts by auto
    then show "var_name \<in> set (required
               (calculate_composite_input_outputs var_name path1 path2 var_map)
               (join (take k (split path1))) OUTPUT)"
      unfolding calculate_adds by (rule adds_reaches) }
  { assume k: "1 \<le> k \<and> k \<le> length (split path2)
               \<and> take k (split path1) \<noteq> take k (split path2)"
    then obtain i where i: "k = i + 1" "i < length (split path2)" by (cases k) auto
    with k have "(INPUT, var_name, join (take k (split path2))) \<in> set (targets var_name path1 path2)"
      unfolding ts by auto
    then show "var_name \<in> set (required
               (calculate_composite_input_outputs var_name path1 path2 var_map)
               (join (take k (split path2))) INPUT)"
      unfolding calculate_adds by (rule adds_reaches) }
  { assume k: "1 \<le> k \<and> k \<le> length (split path1)
               \<and> take k (split path1) = take k (split path2)"
    then have kpos: "0 < k" and k1: "k \<le> length (split path1)"
      and same: "take k (split path1) = take k (split path2)" by auto
    from same have "length (take k (split path1)) = length (take k (split path2))" by simp
    with k1 have k2: "k \<le> length (split path2)" by (simp add: min_def split: if_splits)
    have "\<forall>(slot, v, scope) \<in> set (targets var_name path1 path2).
            scope \<noteq> join (take k (split path1))"
    proof -
      have left: "join (take (Suc i) (split path1)) \<noteq> join (take k (split path1))"
        if i: "i < length (split path1)"
          and differ: "take (Suc i) (split path1) \<noteq> take (Suc i) (split path2)" for i
      proof
        assume eq: "join (take (Suc i) (split path1)) = join (take k (split path1))"
        from eq kpos have e: "take (Suc i) (split path1) = take k (split path1)"
          by (intro join_take_inject) simp_all
        then have "length (take (Suc i) (split path1)) = length (take k (split path1))"
          by simp
        then have "Suc i = k" using i k1 by simp
        then show False using differ same by simp
      qed
      have right: "join (take (Suc i) (split path2)) \<noteq> join (take k (split path1))"
        if i: "i < length (split path2)"
          and differ: "take (Suc i) (split path1) \<noteq> take (Suc i) (split path2)" for i
      proof
        assume eq: "join (take (Suc i) (split path2)) = join (take k (split path1))"
        from eq kpos have e: "take (Suc i) (split path2) = take k (split path1)"
          by (intro join_take_inject) simp_all
        then have "length (take (Suc i) (split path2)) = length (take k (split path1))"
          by simp
        then have "Suc i = k" using i k1 by simp
        then show False using differ same e by simp
      qed
      show ?thesis
      proof (intro ballI, clarify)
        fix slot v scope
        assume "(slot, v, join (take k (split path1))) \<in> set (targets var_name path1 path2)"
        then consider
          (producer) i where "i < length (split path1)"
            "take (Suc i) (split path1) \<noteq> take (Suc i) (split path2)"
            "join (take (Suc i) (split path1)) = join (take k (split path1))"
        | (consumer) i where "i < length (split path2)"
            "take (Suc i) (split path1) \<noteq> take (Suc i) (split path2)"
            "join (take (Suc i) (split path2)) = join (take k (split path1))"
          unfolding ts by (auto simp del: join.simps)
        then show False
        proof cases
          case producer
          then show False using left by blast
        next
          case consumer
          then show False using right by blast
        qed
      qed
    qed
    then show "calculate_composite_input_outputs var_name path1 path2 var_map
               (join (take k (split path1)))
             = var_map (join (take k (split path1)))"
      unfolding calculate_adds by (rule adds_other_scope) }
qed

theorem cross_stream_marks_both_sides_witness:
  "''a/b'' \<noteq> [] \<and> ''a/c'' \<noteq> [] \<and> \<not> startswith ''a/b'' ''a/c'' \<and> \<not> startswith ''a/c'' ''a/b''
   \<and> ''v'' \<in> set (required (calculate_composite_input_outputs ''v'' ''a/b'' ''a/c'' Map.empty)
                    ''a/b'' OUTPUT)
   \<and> ''v'' \<in> set (required (calculate_composite_input_outputs ''v'' ''a/b'' ''a/c'' Map.empty)
                    ''a/c'' INPUT)
   \<and> calculate_composite_input_outputs ''v'' ''a/b'' ''a/c'' Map.empty ''a'' = None"
proof -
  have h: "''a/b'' \<noteq> []" "''a/c'' \<noteq> []" "\<not> startswith ''a/b'' ''a/c''"
    "\<not> startswith ''a/c'' ''a/b''"
    by (simp_all add: startswith_def)
  note t = cross_stream_marks_both_sides [OF h, of "''v''" Map.empty]
  from t have out: "''v'' \<in> set (required (calculate_composite_input_outputs ''v'' ''a/b'' ''a/c'' Map.empty)
                    ''a/b'' OUTPUT)"
    by (elim conjE allE [of _ 2]) simp
  from t have inp: "''v'' \<in> set (required (calculate_composite_input_outputs ''v'' ''a/b'' ''a/c'' Map.empty)
                    ''a/c'' INPUT)"
    by (elim conjE allE [of _ 2]) simp
  from t have a: "calculate_composite_input_outputs ''v'' ''a/b'' ''a/c'' Map.empty ''a'' = None"
    by (elim conjE allE [of _ 1]) simp
  from h out inp a show ?thesis by simp
qed

end
